theory Spec2Isabelle
  imports Complex_Main
begin

section \<open>The sensing loop of sensepy: data model\<close>

text \<open>
  The development embeds \<^verbatim>\<open>src/sensepy/sense.py\<close>: the class \<^verbatim>\<open>SensingAlgorithm\<close>
  (the skeleton of one sensing round) and its only concrete policy
  \<^verbatim>\<open>EpsilonGreedySense\<close>. The base class defines neither \<^verbatim>\<open>add_data\<close> nor the
  attributes \<^verbatim>\<open>data\<close> and \<^verbatim>\<open>estimator\<close> that its methods use, so its methods
  \<^verbatim>\<open>sense\<close>, \<^verbatim>\<open>count_events\<close>, \<^verbatim>\<open>step\<close> and \<^verbatim>\<open>best_point_so_far\<close> are modelled as
  the concrete policy inherits them, with \<^verbatim>\<open>fit_estimator\<close>, \<^verbatim>\<open>acquisition_function\<close>
  and \<^verbatim>\<open>add_data\<close> resolved to the overriding definitions.

  Numbers that are Python floats are reals here (rounding is not modelled); Python
  integers are \<^typ>\<open>int\<close>. A tensor of points of shape \<open>(n, d)\<close> is the list of its \<open>n\<close>
  rows, so \<^verbatim>\<open>size()[0]\<close> is \<^const>\<open>length\<close> and \<^verbatim>\<open>torch.cat(..., dim=0)\<close> is \<open>@\<close>.
  \<^verbatim>\<open>None\<close> in place of a tensor is \<^const>\<open>None\<close>.
\<close>

type_synonym points = "real list list"

text \<open>An observation record: the triple \<^verbatim>\<open>(action, obs, dt)\<close> built by \<^verbatim>\<open>sense\<close>.\<close>

type_synonym 'r data_point = "'r \<times> points option \<times> real"

text \<open>
  Exceptions are values. The first five are raised by Python or torch in the code
  modelled; \<open>Raised name\<close> stands for an exception of class \<open>name\<close> raised inside a
  collaborator (process, estimator, region).
\<close>

datatype error =
  AttributeError | TypeError | RuntimeError | IndexError | ZeroDivisionError
  | Raised string

text \<open>
  The collaborators are not part of the repository: the process, the estimator, the
  regions and the random generators of numpy. They are taken as parameters. A method
  that mutates its object takes the object's state and returns the new one, together with
  either its value or the exception it raised; a query returns a value or an exception.
  The estimator works on its own state \<open>'e\<close>: it is handed records, it does not write to
  the list held by the policy.
\<close>

record ('r, 'e, 'ps, 'g) env =
  sample :: "'r \<Rightarrow> real \<Rightarrow> 'ps \<Rightarrow> (error + points option) \<times> 'ps"
  load_data :: "'r data_point list option \<Rightarrow> 'e \<Rightarrow> (error + unit) \<times> 'e"
  add_data_point :: "'r data_point \<Rightarrow> 'e \<Rightarrow> (error + unit) \<times> 'e"
  fit_gp :: "'e \<Rightarrow> (error + unit) \<times> 'e"
  rate :: "'e \<Rightarrow> real list option"
  mean_set :: "'e \<Rightarrow> 'r \<Rightarrow> error + real"
  mean_rate :: "'e \<Rightarrow> 'r \<Rightarrow> int \<Rightarrow> error + real list"
  return_discretization :: "'r \<Rightarrow> int \<Rightarrow> error + points"
  uniform :: "'g \<Rightarrow> real \<times> 'g"
  randn :: "'g \<Rightarrow> real \<times> 'g"

text \<open>
  The attributes of an \<^verbatim>\<open>EpsilonGreedySense\<close> object, under the names of the source.
  \<open>process\<close> and \<open>estimator\<close> hold the states of the two collaborator objects. \<open>rng\<close> is
  not an attribute: it is the state of numpy's global generator, which
  \<^verbatim>\<open>acquisition_function\<close> advances. The cost function \<open>w\<close> and the schedule \<open>epsilon\<close>
  are callables that return a number for every argument.
\<close>

record ('r, 'e, 'ps, 'g) policy =
  process :: 'ps
  estimator :: 'e
  w :: "'r \<Rightarrow> real"
  data :: "'r data_point list option"
  epsilon :: "int \<Rightarrow> real"
  dt :: real
  topk :: int
  t :: int
  rng :: 'g

text \<open>The second component of the tuple returned by \<^verbatim>\<open>step\<close>: a count or the raw points.\<close>

datatype observed = Count nat | Points "points option"

section \<open>Library operations used by the code\<close>

text \<open>
  \<^verbatim>\<open>torch.topk(input, k)\<close> on a one-dimensional tensor: the \<open>k\<close> largest entries in
  descending order, with their positions; it raises when \<open>k\<close> is negative or exceeds the
  number of entries. The library leaves the order among equal entries open; here the
  earlier position comes first.
\<close>

definition torch_topk :: "real list \<Rightarrow> int \<Rightarrow> error + (real list \<times> nat list)" where
  "torch_topk xs k =
     (if k < 0 \<or> int (length xs) < k then Inl RuntimeError
      else (let idx = take (nat k) (sort_key (\<lambda>i. - (xs ! i)) [0..<length xs])
            in Inr (map (\<lambda>i. xs ! i) idx, idx)))"

text \<open>
  A tensor of positions used as the index of a Python list (\<^verbatim>\<open>actions[best_indices]\<close>):
  only a tensor of a single element converts to an index.
\<close>

definition tensor_index :: "nat list \<Rightarrow> error + nat" where
  "tensor_index is = (case is of [i] \<Rightarrow> Inr i | _ \<Rightarrow> Inl TypeError)"

text \<open>Indexing a Python list at a position that is not negative.\<close>

definition list_get :: "'a list \<Rightarrow> nat \<Rightarrow> error + 'a" where
  "list_get xs i = (if i < length xs then Inr (xs ! i) else Inl IndexError)"

text \<open>The comprehension \<^verbatim>\<open>[actions[i] for i in best_indices]\<close>.\<close>

fun gather :: "'a list \<Rightarrow> nat list \<Rightarrow> error + 'a list" where
  "gather xs [] = Inr []"
| "gather xs (i # is) =
     (case list_get xs i of
        Inl e \<Rightarrow> Inl e
      | Inr x \<Rightarrow> (case gather xs is of Inl e \<Rightarrow> Inl e | Inr ys \<Rightarrow> Inr (x # ys)))"

text \<open>
  \<^verbatim>\<open>torch.argmax\<close> of a flattened tensor: the position of the first maximal entry; it
  raises on a tensor without entries.
\<close>

fun argmax_from :: "real \<Rightarrow> nat \<Rightarrow> nat \<Rightarrow> real list \<Rightarrow> nat" where
  "argmax_from best bi i [] = bi"
| "argmax_from best bi i (x # xs) =
     (if best < x then argmax_from x i (Suc i) xs else argmax_from best bi (Suc i) xs)"

definition torch_argmax :: "real list \<Rightarrow> error + nat" where
  "torch_argmax xs = (case xs of [] \<Rightarrow> Inl IndexError | x # ys \<Rightarrow> Inr (argmax_from x 0 1 ys))"

section \<open>SensingAlgorithm\<close>

text \<open>\<^verbatim>\<open>sense\<close>: sample the process on the action for the duration \<open>dt\<close>.\<close>

definition sense ::
  "('r, 'e, 'ps, 'g) env \<Rightarrow> 'r \<Rightarrow> ('r, 'e, 'ps, 'g) policy
     \<Rightarrow> (error + 'r data_point) \<times> ('r, 'e, 'ps, 'g) policy" where
  "sense env action s =
     (case sample env action (dt s) (process s) of
        (Inl e, ps) \<Rightarrow> (Inl e, s\<lparr>process := ps\<rparr>)
      | (Inr obs, ps) \<Rightarrow> (Inr (action, obs, dt s), s\<lparr>process := ps\<rparr>))"

text \<open>
  \<^verbatim>\<open>count_events\<close>: the loop over \<^verbatim>\<open>self.data\<close> with the running total \<open>tot\<close>. Iterating over
  \<^verbatim>\<open>None\<close> raises \<^verbatim>\<open>TypeError\<close>.
\<close>

fun count_loop :: "nat \<Rightarrow> 'r data_point list \<Rightarrow> nat" where
  "count_loop tot [] = tot"
| "count_loop tot (i # rest) =
     (case fst (snd i) of
        Some pts \<Rightarrow> count_loop (tot + length pts) rest
      | None \<Rightarrow> count_loop tot rest)"

definition count_events :: "('r, 'e, 'ps, 'g) policy \<Rightarrow> error + nat" where
  "count_events s =
     (case data s of None \<Rightarrow> Inl TypeError | Some d \<Rightarrow> Inr (count_loop 0 d))"

section \<open>EpsilonGreedySense\<close>

text \<open>
  \<^verbatim>\<open>__init__\<close>: the initial data (default \<^verbatim>\<open>None\<close>) is stored and handed to the
  estimator's \<^verbatim>\<open>load_data\<close>; when that raises, no object is constructed.
\<close>

definition init ::
  "('r, 'e, 'ps, 'g) env \<Rightarrow> 'ps \<Rightarrow> 'e \<Rightarrow> ('r \<Rightarrow> real) \<Rightarrow> 'r data_point list option
     \<Rightarrow> (int \<Rightarrow> real) \<Rightarrow> real \<Rightarrow> int \<Rightarrow> 'g \<Rightarrow> error + ('r, 'e, 'ps, 'g) policy" where
  "init env pr est w0 initial_data eps d k g =
     (case load_data env initial_data est of
        (Inl e, est') \<Rightarrow> Inl e
      | (Inr u, est') \<Rightarrow>
          Inr \<lparr>process = pr, estimator = est', w = w0, data = initial_data,
               epsilon = eps, dt = d, topk = k, t = 0, rng = g\<rparr>)"

definition fit_estimator ::
  "('r, 'e, 'ps, 'g) env \<Rightarrow> ('r, 'e, 'ps, 'g) policy
     \<Rightarrow> (error + unit) \<times> ('r, 'e, 'ps, 'g) policy" where
  "fit_estimator env s =
     (case fit_gp env (estimator s) of (r, est') \<Rightarrow> (r, s\<lparr>estimator := est'\<rparr>))"

text \<open>The loop \<^verbatim>\<open>for action in actions: scores.append(np.random.randn())\<close>.\<close>

fun random_scores :: "('r, 'e, 'ps, 'g) env \<Rightarrow> 'r list \<Rightarrow> 'g \<Rightarrow> real list \<times> 'g" where
  "random_scores env [] g = ([], g)"
| "random_scores env (a # as) g =
     (case randn env g of
        (z, g') \<Rightarrow> (case random_scores env as g' of (zs, g'') \<Rightarrow> (z # zs, g'')))"

text \<open>
  The exploitation loop: \<^verbatim>\<open>scores.append(float(map / self.w(action)))\<close>. A quotient of
  Python floats raises \<^verbatim>\<open>ZeroDivisionError\<close> at a zero cost, and the model raises there
  (a tensor as numerator would give an infinite or undefined score instead); the
  properties below that speak of the quotient assume a cost that is not zero.
\<close>

fun exploit_scores ::
  "('r, 'e, 'ps, 'g) env \<Rightarrow> ('r \<Rightarrow> real) \<Rightarrow> 'e \<Rightarrow> 'r list \<Rightarrow> error + real list" where
  "exploit_scores env w0 est [] = Inr []"
| "exploit_scores env w0 est (a # as) =
     (case mean_set env est a of
        Inl e \<Rightarrow> Inl e
      | Inr m \<Rightarrow>
          if w0 a = 0 then Inl ZeroDivisionError
          else (case exploit_scores env w0 est as of
                  Inl e \<Rightarrow> Inl e
                | Inr sc \<Rightarrow> Inr (m / w0 a # sc)))"

definition acquisition_function ::
  "('r, 'e, 'ps, 'g) env \<Rightarrow> 'r list \<Rightarrow> ('r, 'e, 'ps, 'g) policy
     \<Rightarrow> (error + real list) \<times> ('r, 'e, 'ps, 'g) policy" where
  "acquisition_function env actions s =
     (let s1 = s\<lparr>t := t s + 1\<rparr>;
          p = fst (uniform env (rng s1));
          s2 = s1\<lparr>rng := snd (uniform env (rng s1))\<rparr>;
          eps = epsilon s2 (t s2)
      in if p > eps then
           (if rate env (estimator s2) \<noteq> None then
              (case exploit_scores env (w s2) (estimator s2) actions of
                 Inl e \<Rightarrow> (Inl e, s2)
               | Inr sc \<Rightarrow> (Inr sc, s2))
            else
              (case random_scores env actions (rng s2) of
                 (zs, g) \<Rightarrow> (Inr zs, s2\<lparr>rng := g\<rparr>)))
         else
           (case random_scores env actions (rng s2) of
              (zs, g) \<Rightarrow> (Inr zs, s2\<lparr>rng := g\<rparr>)))"

text \<open>
  \<^verbatim>\<open>add_data\<close>: first the estimator's \<^verbatim>\<open>add_data_point\<close>, then \<^verbatim>\<open>self.data.append\<close>,
  which raises \<^verbatim>\<open>AttributeError\<close> when \<^verbatim>\<open>self.data\<close> is \<^verbatim>\<open>None\<close>.
\<close>

definition add_data ::
  "('r, 'e, 'ps, 'g) env \<Rightarrow> 'r data_point \<Rightarrow> ('r, 'e, 'ps, 'g) policy
     \<Rightarrow> (error + unit) \<times> ('r, 'e, 'ps, 'g) policy" where
  "add_data env data_point s =
     (case add_data_point env data_point (estimator s) of
        (Inl e, est') \<Rightarrow> (Inl e, s\<lparr>estimator := est'\<rparr>)
      | (Inr u, est') \<Rightarrow>
          (case data s of
             None \<Rightarrow> (Inl AttributeError, s\<lparr>estimator := est'\<rparr>)
           | Some d \<Rightarrow> (Inr (), s\<lparr>estimator := est', data := Some (d @ [data_point])\<rparr>)))"

section \<open>One round: step\<close>

text \<open>The choice of the sensed actions from the positions returned by \<^verbatim>\<open>torch.topk\<close>.\<close>

definition select_actions :: "'r list \<Rightarrow> int \<Rightarrow> nat list \<Rightarrow> error + 'r list" where
  "select_actions actions k best_indices =
     (if k = 1 then
        (case tensor_index best_indices of
           Inl e \<Rightarrow> Inl e
         | Inr i \<Rightarrow> (case list_get actions i of Inl e \<Rightarrow> Inl e | Inr a \<Rightarrow> Inr [a]))
      else gather actions best_indices)"

text \<open>The two branches that update \<^verbatim>\<open>points_loc\<close> in the sensing loop.\<close>

definition merge_points :: "points option \<Rightarrow> points option \<Rightarrow> points option" where
  "merge_points points_loc obs =
     (if points_loc = None \<and> obs \<noteq> None then obs
      else if points_loc \<noteq> None \<and> obs \<noteq> None then Some (the points_loc @ the obs)
      else points_loc)"

text \<open>The sensing loop over the chosen actions, with \<^verbatim>\<open>cost\<close> and \<^verbatim>\<open>points_loc\<close>.\<close>

fun sense_loop ::
  "('r, 'e, 'ps, 'g) env \<Rightarrow> 'r list \<Rightarrow> real \<Rightarrow> points option \<Rightarrow> ('r, 'e, 'ps, 'g) policy
     \<Rightarrow> (error + real \<times> points option) \<times> ('r, 'e, 'ps, 'g) policy" where
  "sense_loop env [] cost points_loc s = (Inr (cost, points_loc), s)"
| "sense_loop env (action # rest) cost points_loc s =
     (case sense env action s of
        (Inl e, s1) \<Rightarrow> (Inl e, s1)
      | (Inr data_point, s1) \<Rightarrow>
          (case add_data env data_point s1 of
             (Inl e, s2) \<Rightarrow> (Inl e, s2)
           | (Inr u, s2) \<Rightarrow>
               sense_loop env rest (cost + w s2 (fst data_point))
                 (merge_points points_loc (fst (snd data_point))) s2))"

definition summary :: "bool \<Rightarrow> points option \<Rightarrow> observed" where
  "summary points points_loc =
     (if \<not> points then
        (case points_loc of Some pl \<Rightarrow> Count (length pl) | None \<Rightarrow> Count 0)
      else
        (case points_loc of Some pl \<Rightarrow> Points (Some pl) | None \<Rightarrow> Points None))"

text \<open>
  \<^verbatim>\<open>step\<close>. The parameter \<^verbatim>\<open>index\<close> is not read by the source. With \<^verbatim>\<open>verbose\<close> the
  source prints the scores, the descriptions of the chosen actions and the value of
  \<^verbatim>\<open>count_events()\<close>; of these only the call of \<^verbatim>\<open>count_events\<close> is modelled.
\<close>

definition step ::
  "('r, 'e, 'ps, 'g) env \<Rightarrow> 'r list \<Rightarrow> bool \<Rightarrow> bool \<Rightarrow> bool \<Rightarrow> ('r, 'e, 'ps, 'g) policy
     \<Rightarrow> (error + real \<times> observed \<times> 'r list \<times> nat list) \<times> ('r, 'e, 'ps, 'g) policy" where
  "step env actions verbose index points s =
     (case fit_estimator env s of
        (Inl e, s1) \<Rightarrow> (Inl e, s1)
      | (Inr u, s1) \<Rightarrow>
     (case acquisition_function env actions s1 of
        (Inl e, s2) \<Rightarrow> (Inl e, s2)
      | (Inr scores, s2) \<Rightarrow>
     (case torch_topk scores (topk s2) of
        Inl e \<Rightarrow> (Inl e, s2)
      | Inr (best_regions, best_indices) \<Rightarrow>
     (case select_actions actions (topk s2) best_indices of
        Inl e \<Rightarrow> (Inl e, s2)
      | Inr sensed_actions \<Rightarrow>
     (case (if verbose then count_events s2 else Inr 0) of
        Inl e \<Rightarrow> (Inl e, s2)
      | Inr n \<Rightarrow>
     (case sense_loop env sensed_actions 0 None s2 of
        (Inl e, s3) \<Rightarrow> (Inl e, s3)
      | (Inr (cost, points_loc), s3) \<Rightarrow>
          (Inr (cost, summary points points_loc, sensed_actions, best_indices), s3)))))))"

text \<open>
  \<^verbatim>\<open>best_point_so_far\<close>: the row of the discretization at the position of the largest
  mean rate. Indexing the grid beyond its rows raises \<^verbatim>\<open>IndexError\<close>.
\<close>

definition best_point_so_far ::
  "('r, 'e, 'ps, 'g) env \<Rightarrow> ('r, 'e, 'ps, 'g) policy \<Rightarrow> 'r \<Rightarrow> int \<Rightarrow> error + real list" where
  "best_point_so_far env s D n =
     (case return_discretization env D n of
        Inl e \<Rightarrow> Inl e
      | Inr xx \<Rightarrow>
          (case mean_rate env (estimator s) D n of
             Inl e \<Rightarrow> Inl e
           | Inr mp \<Rightarrow>
               (case torch_argmax mp of
                  Inl e \<Rightarrow> Inl e
                | Inr i \<Rightarrow> list_get xx i)))"

section \<open>Notions used to state the properties\<close>

text \<open>The number of events of one record: a null observation counts for nothing.\<close>

definition events_of :: "'r data_point \<Rightarrow> nat" where
  "events_of i = (case fst (snd i) of None \<Rightarrow> 0 | Some pts \<Rightarrow> length pts)"

text \<open>\<open>n\<close> successive draws from a generator, each from the state the previous one left.\<close>

fun draws :: "('g \<Rightarrow> real \<times> 'g) \<Rightarrow> nat \<Rightarrow> 'g \<Rightarrow> real list" where
  "draws f 0 g = []"
| "draws f (Suc n) g = fst (f g) # draws f n (snd (f g))"

text \<open>
  The null-safe concatenation of the observations of a round: the null entries are
  skipped, the others are concatenated in order, and the result is null when there is
  none.
\<close>

definition non_null :: "points option list \<Rightarrow> points list" where
  "non_null os = map the (filter (\<lambda>ob. ob \<noteq> None) os)"

definition null_safe_cat :: "points option list \<Rightarrow> points option" where
  "null_safe_cat os = (if non_null os = [] then None else Some (concat (non_null os)))"

text \<open>The state of the estimator after it was handed a list of records, one by one.\<close>

definition ingest :: "('r, 'e, 'ps, 'g) env \<Rightarrow> 'e \<Rightarrow> 'r data_point list \<Rightarrow> 'e" where
  "ingest env es recs = foldl (\<lambda>es r. snd (add_data_point env r es)) es recs"

section \<open>Simulated collaborators for the concrete runs\<close>

text \<open>
  Regions are numbers. Sensing region \<open>a\<close> yields \<open>a\<close> points, and null for region \<open>0\<close>.
  The estimator keeps the records it was given and a flag set by a fit on a non-empty
  dataset; its rate exists once the flag is set, its mean over region \<open>a\<close> is \<open>a\<close>, and its
  grid mean is a fixed vector whether fitted or not. The uniform generator returns
  \<open>1/2\<close>; the normal generator returns its own state as the draw.
\<close>

definition demo_env :: "(nat, nat data_point list \<times> bool, nat, nat) env" where
  "demo_env = \<lparr>
     sample = (\<lambda>a d ps. (Inr (if a = 0 then None else Some (replicate a [real ps])), Suc ps)),
     load_data = (\<lambda>d es. (Inr (), (case d of None \<Rightarrow> [] | Some recs \<Rightarrow> recs, False))),
     add_data_point = (\<lambda>dp es. (Inr (), (fst es @ [dp], snd es))),
     fit_gp = (\<lambda>es. (Inr (), (fst es, fst es \<noteq> []))),
     rate = (\<lambda>es. if snd es then Some [1] else None),
     mean_set = (\<lambda>es a. Inr (real a)),
     mean_rate = (\<lambda>es D n. Inr [1, 3, 2]),
     return_discretization = (\<lambda>D n. Inr [[0], [1 / 2], [1]]),
     uniform = (\<lambda>g. (1 / 2, Suc g)),
     randn = (\<lambda>g. (real g, Suc g))\<rparr>"

text \<open>Variants: a uniform draw of exactly \<open>0\<close>, and collaborators that raise.\<close>

definition env_draw_zero :: "(nat, nat data_point list \<times> bool, nat, nat) env" where
  "env_draw_zero = demo_env\<lparr>uniform := (\<lambda>g. (0, Suc g))\<rparr>"

definition env_fit_fails :: "(nat, nat data_point list \<times> bool, nat, nat) env" where
  "env_fit_fails = demo_env\<lparr>fit_gp := (\<lambda>es. (Inl (Raised ''EstimationError''), es))\<rparr>"

definition env_sample_fails :: "(nat, nat data_point list \<times> bool, nat, nat) env" where
  "env_sample_fails = demo_env\<lparr>sample := (\<lambda>a d ps.
     if a = 9 then (Inl (Raised ''InvalidActionError''), ps)
     else (Inr (if a = 0 then None else Some (replicate a [real ps])), Suc ps))\<rparr>"

definition env_ingest_fails :: "(nat, nat data_point list \<times> bool, nat, nat) env" where
  "env_ingest_fails =
     demo_env\<lparr>add_data_point := (\<lambda>dp es. (Inl (Raised ''InvalidActionError''), es))\<rparr>"

definition env_rate_raises :: "(nat, nat data_point list \<times> bool, nat, nat) env" where
  "env_rate_raises =
     demo_env\<lparr>mean_rate := (\<lambda>es D n. if snd es then Inr [1, 3, 2] else Inl (Raised ''NotFittedError''))\<rparr>"

definition demo_cost :: "nat \<Rightarrow> real" where
  "demo_cost a = real a + 1"

definition zero_schedule :: "int \<Rightarrow> real" where
  "zero_schedule n = 0"

text \<open>A policy with an empty dataset and no fit yet, one after a fit, and one without data.\<close>

definition demo_policy :: "(nat, nat data_point list \<times> bool, nat, nat) policy" where
  "demo_policy = \<lparr>process = 0, estimator = ([], False), w = demo_cost,
     data = Some [], epsilon = zero_schedule, dt = 10, topk = 2, t = 0, rng = 0\<rparr>"

definition fitted_policy :: "(nat, nat data_point list \<times> bool, nat, nat) policy" where
  "fitted_policy = \<lparr>process = 1, estimator = ([(1, Some [[0]], 10)], True), w = demo_cost,
     data = Some [(1, Some [[0]], 10)], epsilon = zero_schedule, dt = 10, topk = 1, t = 1,
     rng = 2\<rparr>"

definition null_policy :: "(nat, nat data_point list \<times> bool, nat, nat) policy" where
  "null_policy = \<lparr>process = 0, estimator = ([], False), w = demo_cost,
     data = None, epsilon = zero_schedule, dt = 10, topk = 0, t = 0, rng = 0\<rparr>"

section \<open>Auxiliary facts\<close>

lemma count_loop_sum: "count_loop tot d = tot + sum_list (map events_of d)"
  by (induction d arbitrary: tot) (auto simp: events_of_def split: option.splits)

lemma random_scores_draws:
  "fst (random_scores env actions g) = draws (randn env) (length actions) g"
  by (induction actions arbitrary: g) (simp_all add: case_prod_beta)

lemma exploit_scores_ok:
  "\<forall>a\<in>set actions. mean_set env est a = Inr (m a) \<and> w0 a \<noteq> 0 \<Longrightarrow>
     exploit_scores env w0 est actions = Inr (map (\<lambda>a. m a / w0 a) actions)"
  by (induction actions) auto

lemma fit_estimator_snd:
  "snd (fit_estimator env s) = s\<lparr>estimator := snd (fit_gp env (estimator s))\<rparr>"
  by (simp add: fit_estimator_def case_prod_beta)

lemma fit_estimator_fst: "fst (fit_estimator env s) = fst (fit_gp env (estimator s))"
  by (simp add: fit_estimator_def case_prod_beta)

lemma acquisition_function_snd:
  "\<exists>g. snd (acquisition_function env actions s) = s\<lparr>t := t s + 1, rng := g\<rparr>"
  by (auto simp: acquisition_function_def Let_def case_prod_beta split: sum.splits)

lemma random_scores_length: "length (fst (random_scores env actions g)) = length actions"
  by (induction actions arbitrary: g) (simp_all add: case_prod_beta)

lemma exploit_scores_length:
  "exploit_scores env w0 est actions = Inr sc \<Longrightarrow> length sc = length actions"
  by (induction actions arbitrary: sc) (auto split: sum.splits if_splits)

lemma acquisition_function_length:
  "fst (acquisition_function env actions s) = Inr scores \<Longrightarrow> length scores = length actions"
  using random_scores_length [of env actions]
  by (auto simp: acquisition_function_def Let_def case_prod_beta
           split: sum.splits if_splits dest: exploit_scores_length)

lemma torch_topk_Inr:
  assumes "torch_topk xs k = Inr (vals, idx)"
  shows "0 \<le> k" and "k \<le> int (length xs)" and "length idx = nat k" and "distinct idx"
    and "\<forall>i\<in>set idx. i < length xs" and "vals = map (\<lambda>i. xs ! i) idx"
proof -
  from assms have k: "0 \<le> k" "k \<le> int (length xs)"
    and idx: "idx = take (nat k) (sort_key (\<lambda>i. - (xs ! i)) [0..<length xs])"
    and vals: "vals = map (\<lambda>i. xs ! i) idx"
    by (auto simp: torch_topk_def Let_def split: if_splits)
  show "0 \<le> k" "k \<le> int (length xs)" "vals = map (\<lambda>i. xs ! i) idx"
    using k vals by simp_all
  show "length idx = nat k" using k by (simp add: idx)
  show "distinct idx" by (simp add: idx distinct_take)
  have "set idx \<subseteq> set (sort_key (\<lambda>i. - (xs ! i)) [0..<length xs])"
    unfolding idx by (rule set_take_subset)
  then show "\<forall>i\<in>set idx. i < length xs" by auto
qed

lemma torch_topk_total:
  "0 \<le> k \<Longrightarrow> k \<le> int (length xs) \<Longrightarrow> \<exists>r. torch_topk xs k = Inr r"
  by (simp add: torch_topk_def Let_def)

lemma gather_Inr:
  "gather xs is = Inr ys \<Longrightarrow> ys = map (\<lambda>i. xs ! i) is"
  by (induction "is" arbitrary: ys) (auto simp: list_get_def split: sum.splits if_splits)

lemma gather_total:
  "\<forall>i\<in>set is. i < length xs \<Longrightarrow> gather xs is = Inr (map (\<lambda>i. xs ! i) is)"
  by (induction "is") (auto simp: list_get_def)

lemma select_actions_Inr:
  "select_actions actions k idx = Inr sensed \<Longrightarrow> length idx = nat k
     \<Longrightarrow> sensed = map (\<lambda>i. actions ! i) idx"
  by (auto simp: select_actions_def tensor_index_def list_get_def
           split: if_splits sum.splits list.splits dest: gather_Inr)

lemma select_actions_total:
  "\<forall>i\<in>set idx. i < length actions \<Longrightarrow> length idx = nat k
     \<Longrightarrow> select_actions actions k idx = Inr (map (\<lambda>i. actions ! i) idx)"
  by (cases idx; cases "tl idx")
     (auto simp: select_actions_def tensor_index_def list_get_def gather_total)

lemma sense_snd:
  "snd (sense env a s) = s\<lparr>process := snd (sample env a (dt s) (process s))\<rparr>"
  by (auto simp: sense_def split: prod.splits sum.splits)

lemma sense_Inr:
  "sense env a s = (Inr dp, s1) \<Longrightarrow>
     \<exists>obs. dp = (a, obs, dt s) \<and> s1 = s\<lparr>process := snd (sample env a (dt s) (process s))\<rparr>"
  by (auto simp: sense_def split: prod.splits sum.splits)

lemma add_data_Inr:
  "add_data env dp s = (Inr u, s2) \<Longrightarrow>
     \<exists>d. data s = Some d \<and>
         s2 = s\<lparr>estimator := snd (add_data_point env dp (estimator s)),
                data := Some (d @ [dp])\<rparr>"
  by (auto simp: add_data_def split: prod.splits sum.splits option.splits)

lemma add_data_Inl:
  "add_data env dp s = (Inl e, s2) \<Longrightarrow>
     s2 = s\<lparr>estimator := snd (add_data_point env dp (estimator s))\<rparr>"
  by (auto simp: add_data_def split: prod.splits sum.splits option.splits)

lemma merge_points_simps:
  "merge_points pl None = pl"
  "merge_points None (Some p) = Some p"
  "merge_points (Some q) (Some p) = Some (q @ p)"
  by (simp_all add: merge_points_def)

lemma foldl_merge_Some:
  "foldl merge_points (Some q) os = Some (q @ concat (non_null os))"
proof (induction os arbitrary: q)
  case Nil
  show ?case by (simp add: non_null_def)
next
  case (Cons ob os)
  show ?case
  proof (cases ob)
    case None
    with Cons show ?thesis by (simp add: merge_points_simps non_null_def)
  next
    case (Some p)
    with Cons [of "q @ p"] show ?thesis by (simp add: merge_points_simps non_null_def)
  qed
qed

lemma foldl_merge_None: "foldl merge_points None os = null_safe_cat os"
proof (induction os)
  case Nil
  show ?case by (simp add: null_safe_cat_def non_null_def)
next
  case (Cons ob os)
  show ?case
  proof (cases ob)
    case None
    with Cons show ?thesis by (simp add: merge_points_simps null_safe_cat_def non_null_def)
  next
    case (Some p)
    then show ?thesis
      by (simp add: merge_points_simps foldl_merge_Some null_safe_cat_def non_null_def)
  qed
qed

lemma sense_loop_Inr:
  "sense_loop env as c p s = (Inr (c', p'), s') \<Longrightarrow> data s = Some d \<Longrightarrow>
     \<exists>recs. data s' = Some (d @ recs) \<and> map fst recs = as
       \<and> p' = foldl merge_points p (map (\<lambda>r. fst (snd r)) recs)
       \<and> c' = c + sum_list (map (w s) as)
       \<and> estimator s' = ingest env (estimator s) recs"
proof (induction as arbitrary: c p s d)
  case Nil
  then show ?case by (simp add: ingest_def)
next
  case (Cons a as)
  from Cons.prems(1) obtain dp s1 where s1: "sense env a s = (Inr dp, s1)"
    by (auto split: prod.splits sum.splits)
  from Cons.prems(1) s1 obtain u s2 where s2: "add_data env dp s1 = (Inr u, s2)"
    by (auto split: prod.splits sum.splits)
  from sense_Inr [OF s1] obtain obs where dp: "dp = (a, obs, dt s)"
    and s1_eq: "s1 = s\<lparr>process := snd (sample env a (dt s) (process s))\<rparr>" by blast
  from add_data_Inr [OF s2] Cons.prems(2) s1_eq
  have s2_eq: "s2 = s1\<lparr>estimator := snd (add_data_point env dp (estimator s1)),
                       data := Some (d @ [dp])\<rparr>" by auto
  have rest: "sense_loop env as (c + w s2 (fst dp)) (merge_points p (fst (snd dp))) s2
                = (Inr (c', p'), s')"
    using Cons.prems(1) s1 s2 by simp
  have d2: "data s2 = Some (d @ [dp])" by (simp add: s2_eq)
  from Cons.IH [OF rest d2] obtain recs where
    r: "data s' = Some ((d @ [dp]) @ recs)" "map fst recs = as"
       "p' = foldl merge_points (merge_points p (fst (snd dp))) (map (\<lambda>r. fst (snd r)) recs)"
       "c' = c + w s2 (fst dp) + sum_list (map (w s2) as)"
       "estimator s' = ingest env (estimator s2) recs" by blast
  have ws: "w s2 = w s" "estimator s2 = snd (add_data_point env dp (estimator s))"
    by (simp_all add: s2_eq s1_eq)
  show ?case
    by (rule exI [of _ "dp # recs"]) (simp add: r ws dp ingest_def)
qed

lemma sense_loop_append:
  "sense_loop env (pre @ post) c p s =
     (case sense_loop env pre c p s of
        (Inl e, s1) \<Rightarrow> (Inl e, s1)
      | (Inr (c1, p1), s1) \<Rightarrow> sense_loop env post c1 p1 s1)"
  by (induction pre arbitrary: c p s) (auto split: prod.splits sum.splits)

lemma sense_keeps:
  "t (snd (sense env a s)) = t s" "data (snd (sense env a s)) = data s"
  "estimator (snd (sense env a s)) = estimator s"
  by (simp_all add: sense_snd)

lemma add_data_keeps:
  "t (snd (add_data env dp s)) = t s"
  by (auto simp: add_data_def split: prod.splits sum.splits option.splits)

lemma sense_loop_t: "t (snd (sense_loop env as c p s)) = t s"
proof (induction as arbitrary: c p s)
  case Nil
  show ?case by simp
next
  case (Cons a as)
  show ?case
  proof (cases "sense env a s")
    case (Pair r1 s1)
    then have t1: "t s1 = t s" using sense_keeps(1) [of env a s] by simp
    show ?thesis
    proof (cases r1)
      case (Inl e)
      with Pair t1 show ?thesis by simp
    next
      case (Inr dp)
      show ?thesis
      proof (cases "add_data env dp s1")
        case (Pair r2 s2)
        then have t2: "t s2 = t s" using add_data_keeps [of env dp s1] t1 by simp
        show ?thesis
          using \<open>sense env a s = (r1, s1)\<close> Inr Pair t2 Cons
          by (cases r2) simp_all
      qed
    qed
  qed
qed

lemma step_Inr:
  assumes "step env actions verbose index points s = (Inr (cost, out, sensed, idx), s')"
  obtains u s1 scores s2 vals n pl where
    "fit_estimator env s = (Inr u, s1)"
    "acquisition_function env actions s1 = (Inr scores, s2)"
    "torch_topk scores (topk s2) = Inr (vals, idx)"
    "select_actions actions (topk s2) idx = Inr sensed"
    "(if verbose then count_events s2 else Inr 0) = Inr n"
    "sense_loop env sensed 0 None s2 = (Inr (cost, pl), s')"
    "out = summary points pl"
  using assms unfolding step_def
  by (auto split: prod.splits sum.splits)

lemma before_loop_keeps:
  assumes "fit_estimator env s = (r1, s1)" and "acquisition_function env actions s1 = (r2, s2)"
  shows "topk s2 = topk s" and "data s2 = data s" and "t s2 = t s + 1" and "w s2 = w s"
    and "dt s2 = dt s" and "process s2 = process s"
    and "estimator s2 = snd (fit_gp env (estimator s))"
proof -
  have s1: "s1 = s\<lparr>estimator := snd (fit_gp env (estimator s))\<rparr>"
    using fit_estimator_snd [of env s] assms(1) by simp
  obtain g where s2: "s2 = s1\<lparr>t := t s1 + 1, rng := g\<rparr>"
    using acquisition_function_snd [of env actions s1] assms(2) by auto
  show "topk s2 = topk s" "data s2 = data s" "t s2 = t s + 1" "w s2 = w s"
    "dt s2 = dt s" "process s2 = process s"
    "estimator s2 = snd (fit_gp env (estimator s))"
    by (simp_all add: s1 s2)
qed

lemma step_selection:
  assumes "step env actions verbose index points s = (Inr (cost, out, sensed, idx), s')"
  shows "0 \<le> topk s \<and> topk s \<le> int (length actions)
     \<and> length sensed = nat (topk s) \<and> length idx = nat (topk s)
     \<and> (\<forall>i\<in>set idx. i < length actions) \<and> distinct idx
     \<and> sensed = map (\<lambda>i. actions ! i) idx
     \<and> length sensed \<le> min (nat (topk s)) (length actions)"
proof -
  from assms obtain u s1 scores s2 vals where
    fit: "fit_estimator env s = (Inr u, s1)" and
    acq: "acquisition_function env actions s1 = (Inr scores, s2)" and
    tk: "torch_topk scores (topk s2) = Inr (vals, idx)" and
    sel: "select_actions actions (topk s2) idx = Inr sensed"
    by (rule step_Inr)
  have k: "topk s2 = topk s" using before_loop_keeps(1) [OF fit acq] .
  have len: "length scores = length actions"
    using acquisition_function_length [of env actions s1 scores] acq by simp
  note tk' = torch_topk_Inr [OF tk, unfolded k len]
  have "sensed = map (\<lambda>i. actions ! i) idx"
    using select_actions_Inr [OF sel] tk'(3) k by simp
  with tk' show ?thesis by simp
qed

lemma sense_loop_total:
  assumes "\<forall>a d ps. \<exists>obs. fst (sample env a d ps) = Inr obs"
    and "\<forall>dp es. fst (add_data_point env dp es) = Inr ()"
  shows "data s = Some d \<Longrightarrow> \<exists>r s'. sense_loop env as c p s = (Inr r, s')"
proof (induction as arbitrary: c p s d)
  case Nil
  show ?case by simp
next
  case (Cons a as)
  from assms(1) obtain obs where "fst (sample env a (dt s) (process s)) = Inr obs" by blast
  then obtain s1 where s1: "sense env a s = (Inr (a, obs, dt s), s1)"
    by (cases "sample env a (dt s) (process s)") (auto simp: sense_def)
  have d1: "data s1 = Some d" using sense_keeps(2) [of env a s] s1 Cons.prems by simp
  from assms(2) have "fst (add_data_point env (a, obs, dt s) (estimator s1)) = Inr ()" by blast
  then obtain s2 where s2: "add_data env (a, obs, dt s) s1 = (Inr (), s2)"
    and d2: "data s2 = Some (d @ [(a, obs, dt s)])"
    using d1 by (cases "add_data_point env (a, obs, dt s) (estimator s1)") (auto simp: add_data_def)
  from Cons.IH [OF d2] s1 s2 show ?case by simp
qed

lemma exploit_scores_total:
  "\<forall>a\<in>set actions. (\<exists>m. mean_set env est a = Inr m) \<and> w0 a \<noteq> 0
     \<Longrightarrow> \<exists>sc. exploit_scores env w0 est actions = Inr sc"
  by (induction actions) auto

lemma acquisition_function_total:
  "\<forall>es. \<forall>a\<in>set actions. (\<exists>m. mean_set env es a = Inr m) \<and> w s a \<noteq> 0
     \<Longrightarrow> \<exists>sc s'. acquisition_function env actions s = (Inr sc, s')"
  using exploit_scores_total [of actions env "estimator s" "w s"]
  by (auto simp: acquisition_function_def Let_def case_prod_beta split: sum.splits)

lemma step_after_selection:
  assumes "fit_estimator env s = (Inr u, s1)"
    and "acquisition_function env actions s1 = (Inr scores, s2)"
    and "torch_topk scores (topk s2) = Inr (vals, idx)"
    and "select_actions actions (topk s2) idx = Inr sensed"
    and "(if verbose then count_events s2 else Inr 0) = Inr n"
  shows "step env actions verbose index points s =
     (case sense_loop env sensed 0 None s2 of
        (Inl e, s3) \<Rightarrow> (Inl e, s3)
      | (Inr (cost, pl), s3) \<Rightarrow> (Inr (cost, summary points pl, sensed, idx), s3))"
  using assms by (simp add: step_def)

lemma step_total:
  assumes k: "0 \<le> topk s" "topk s \<le> int (length actions)" and d: "data s = Some d"
    and fit: "\<forall>es. fst (fit_gp env es) = Inr ()"
    and smp: "\<forall>a d ps. \<exists>obs. fst (sample env a d ps) = Inr obs"
    and adp: "\<forall>dp es. fst (add_data_point env dp es) = Inr ()"
    and ms: "\<forall>es. \<forall>a\<in>set actions. (\<exists>m. mean_set env es a = Inr m) \<and> w s a \<noteq> 0"
  shows "\<exists>r s'. step env actions verbose index points s = (Inr r, s')"
proof -
  obtain s1 where f1: "fit_estimator env s = (Inr (), s1)"
    using fit fit_estimator_fst [of env s] by (cases "fit_estimator env s") auto
  have w1: "w s1 = w s" using fit_estimator_snd [of env s] f1 by simp
  obtain scores s2 where a2: "acquisition_function env actions s1 = (Inr scores, s2)"
    using acquisition_function_total [of actions env s1] ms w1 by auto
  note keep = before_loop_keeps [OF f1 a2]
  have len: "length scores = length actions"
    using acquisition_function_length [of env actions s1 scores] a2 by simp
  obtain vals idx where tk: "torch_topk scores (topk s2) = Inr (vals, idx)"
    using torch_topk_total [of "topk s2" scores] k keep(1) len by auto
  note tk' = torch_topk_Inr [OF tk]
  have sel: "select_actions actions (topk s2) idx = Inr (map (\<lambda>i. actions ! i) idx)"
    using select_actions_total [of idx actions "topk s2"] tk'(3,5) len by simp
  have ce: "(if verbose then count_events s2 else Inr 0)
              = Inr (if verbose then count_loop 0 d else 0)"
    using keep(2) d by (simp add: count_events_def)
  have d2: "data s2 = Some d" using keep(2) d by simp
  obtain r s' where lp: "sense_loop env (map (\<lambda>i. actions ! i) idx) 0 None s2 = (Inr r, s')"
    using sense_loop_total [OF smp adp d2] by blast
  show ?thesis
    unfolding step_after_selection [OF f1 a2 tk sel ce] using lp
    by (cases r) simp
qed

lemma step_points:
  assumes "step env actions verbose index points s = (Inr (cost, out, sensed, idx), s')"
    and "data s = Some d"
  shows "\<exists>recs. data s' = Some (d @ recs) \<and> map fst recs = sensed
           \<and> out = summary points (null_safe_cat (map (\<lambda>r. fst (snd r)) recs))"
proof -
  from assms(1) obtain u s1 scores s2 pl where
    fit: "fit_estimator env s = (Inr u, s1)" and
    acq: "acquisition_function env actions s1 = (Inr scores, s2)" and
    lp: "sense_loop env sensed 0 None s2 = (Inr (cost, pl), s')" and
    out: "out = summary points pl"
    by (rule step_Inr)
  have d2: "data s2 = Some d" using before_loop_keeps(2) [OF fit acq] assms(2) by simp
  from sense_loop_Inr [OF lp d2] obtain recs where
    "data s' = Some (d @ recs)" "map fst recs = sensed"
    "pl = foldl merge_points None (map (\<lambda>r. fst (snd r)) recs)" by blast
  then show ?thesis using out by (auto simp: foldl_merge_None)
qed

lemma null_safe_cat_single: "non_null os = [p] \<Longrightarrow> null_safe_cat os = Some p"
  by (simp add: null_safe_cat_def)

lemma null_safe_cat_all_null: "\<forall>ob\<in>set os. ob = None \<Longrightarrow> null_safe_cat os = None"
  by (simp add: null_safe_cat_def non_null_def filter_empty_conv)

lemma step_t:
  "t (snd (step env actions verbose index points s))
     = (case fst (fit_estimator env s) of Inl e \<Rightarrow> t s | Inr u \<Rightarrow> t s + 1)"
proof (cases "fit_estimator env s")
  case (Pair r1 s1)
  have t1: "t s1 = t s" using fit_estimator_snd [of env s] Pair by simp
  show ?thesis
  proof (cases r1)
    case (Inl e)
    with Pair t1 show ?thesis by (simp add: step_def)
  next
    case (Inr u)
    show ?thesis
    proof (cases "acquisition_function env actions s1")
      case acq: (Pair r2 s2)
      have t2: "t s2 = t s + 1"
        using before_loop_keeps(3) Pair acq by blast
      have "t (snd (step env actions verbose index points s)) = t s2"
        using Pair Inr acq
        by (simp add: step_def case_prod_beta sense_loop_t split: sum.splits)
      with t2 Pair Inr show ?thesis by simp
    qed
  qed
qed

lemma sense_loop_fails_at:
  assumes "sense_loop env pre c p s = (Inr (c1, p1), s3)"
    and "sense env a s3 = (Inl e, s4)
         \<or> (\<exists>dp s'. sense env a s3 = (Inr dp, s') \<and> add_data env dp s' = (Inl e, s4))"
  shows "sense_loop env (pre @ a # post) c p s = (Inl e, s4)"
    and "data s4 = data s3"
    and "estimator s4 = estimator s3
         \<or> (\<exists>dp. estimator s4 = snd (add_data_point env dp (estimator s3)))"
proof -
  show "sense_loop env (pre @ a # post) c p s = (Inl e, s4)"
    using assms by (auto simp: sense_loop_append)
  from assms(2) show "data s4 = data s3"
  proof
    assume "sense env a s3 = (Inl e, s4)"
    then show ?thesis using sense_keeps(2) [of env a s3] by simp
  next
    assume "\<exists>dp s'. sense env a s3 = (Inr dp, s') \<and> add_data env dp s' = (Inl e, s4)"
    then obtain dp s' where a: "sense env a s3 = (Inr dp, s')"
      and b: "add_data env dp s' = (Inl e, s4)" by blast
    have "data s' = data s3" using sense_keeps(2) [of env a s3] a by simp
    then show ?thesis using add_data_Inl [OF b] by simp
  qed
  from assms(2) show "estimator s4 = estimator s3
         \<or> (\<exists>dp. estimator s4 = snd (add_data_point env dp (estimator s3)))"
  proof
    assume "sense env a s3 = (Inl e, s4)"
    then show ?thesis using sense_keeps(3) [of env a s3] by simp
  next
    assume "\<exists>dp s'. sense env a s3 = (Inr dp, s') \<and> add_data env dp s' = (Inl e, s4)"
    then obtain dp s' where a: "sense env a s3 = (Inr dp, s')"
      and b: "add_data env dp s' = (Inl e, s4)" by blast
    have "estimator s' = estimator s3" using sense_keeps(3) [of env a s3] a by simp
    then have "estimator s4 = snd (add_data_point env dp (estimator s3))"
      using add_data_Inl [OF b] by simp
    then show ?thesis by blast
  qed
qed

lemma add_data_null:
  "data s = None \<Longrightarrow>
     (\<exists>e. fst (add_data env dp s) = Inl e) \<and> data (snd (add_data env dp s)) = None"
  by (auto simp: add_data_def split: prod.splits sum.splits)

lemma sense_loop_null:
  assumes "data s = None"
  shows "data (snd (sense_loop env as c p s)) = None"
    and "as \<noteq> [] \<Longrightarrow> \<exists>e. fst (sense_loop env as c p s) = Inl e"
proof -
  have "data (snd (sense_loop env as c p s)) = None
        \<and> (as \<noteq> [] \<longrightarrow> (\<exists>e. fst (sense_loop env as c p s) = Inl e))"
  proof (cases as)
    case Nil
    with assms show ?thesis by simp
  next
    case (Cons a rest)
    show ?thesis
    proof (cases "sense env a s")
      case (Pair r1 s1)
      have d1: "data s1 = None" using sense_keeps(2) [of env a s] Pair assms by simp
      show ?thesis
      proof (cases r1)
        case (Inl e)
        with Pair Cons d1 show ?thesis by simp
      next
        case (Inr dp)
        from add_data_null [OF d1, of env dp] obtain e where
          "fst (add_data env dp s1) = Inl e" "data (snd (add_data env dp s1)) = None" by blast
        with Pair Cons Inr show ?thesis
          by (cases "add_data env dp s1") simp
      qed
    qed
  qed
  then show "data (snd (sense_loop env as c p s)) = None"
    and "as \<noteq> [] \<Longrightarrow> \<exists>e. fst (sense_loop env as c p s) = Inl e" by simp_all
qed

lemma step_null_data:
  assumes "data s = None"
  shows "data (snd (step env actions verbose index points s)) = None"
proof (cases "fit_estimator env s")
  case (Pair r1 s1)
  have d1: "data s1 = None" using fit_estimator_snd [of env s] Pair assms by simp
  show ?thesis
  proof (cases "acquisition_function env actions s1")
    case acq: (Pair r2 s2)
    have d2: "data s2 = None" using before_loop_keeps(2) [OF Pair acq] assms by simp
    show ?thesis using Pair acq d1 d2
      by (simp add: step_def case_prod_beta sense_loop_null(1) split: sum.splits)
  qed
qed

lemma step_null_fails:
  assumes "data s = None" and "topk s \<noteq> 0 \<or> verbose"
  shows "\<exists>e. fst (step env actions verbose index points s) = Inl e"
proof (rule ccontr)
  assume "\<not> ?thesis"
  then obtain r s' where st: "step env actions verbose index points s = (Inr r, s')"
    by (cases "step env actions verbose index points s"; cases "fst (step env actions verbose index points s)") auto
  obtain cost out sensed idx where r: "r = (cost, out, sensed, idx)" by (cases r) auto
  from st [unfolded r] obtain u s1 scores s2 n pl where
    fit: "fit_estimator env s = (Inr u, s1)" and
    acq: "acquisition_function env actions s1 = (Inr scores, s2)" and
    ce: "(if verbose then count_events s2 else Inr 0) = Inr n" and
    lp: "sense_loop env sensed 0 None s2 = (Inr (cost, pl), s')"
    by (rule step_Inr)
  have d2: "data s2 = None" using before_loop_keeps(2) [OF fit acq] assms(1) by simp
  from ce d2 have nv: "\<not> verbose" by (auto simp: count_events_def split: if_splits)
  with assms(2) have "topk s \<noteq> 0" by simp
  moreover from step_selection [OF st [unfolded r]]
  have "0 \<le> topk s" "length sensed = nat (topk s)" by simp_all
  ultimately have "sensed \<noteq> []" by auto
  from sense_loop_null(2) [OF d2 this, of env 0 None] lp show False by simp
qed

lemma argmax_from_spec:
  assumes "i = length pre" and "bi < length pre" and "best = pre ! bi"
    and "\<forall>j < length pre. pre ! j \<le> best" and "\<forall>j < bi. pre ! j < best"
  shows "argmax_from best bi i xs < length (pre @ xs)
     \<and> (\<forall>j < length (pre @ xs). (pre @ xs) ! j \<le> (pre @ xs) ! argmax_from best bi i xs)
     \<and> (\<forall>j < argmax_from best bi i xs. (pre @ xs) ! j < (pre @ xs) ! argmax_from best bi i xs)"
  using assms
proof (induction xs arbitrary: pre best bi i)
  case Nil
  then show ?case by simp
next
  case (Cons x xs)
  show ?case
  proof (cases "best < x")
    case True
    have "argmax_from x i (Suc i) xs < length ((pre @ [x]) @ xs)
     \<and> (\<forall>j < length ((pre @ [x]) @ xs). ((pre @ [x]) @ xs) ! j \<le> ((pre @ [x]) @ xs) ! argmax_from x i (Suc i) xs)
     \<and> (\<forall>j < argmax_from x i (Suc i) xs. ((pre @ [x]) @ xs) ! j < ((pre @ [x]) @ xs) ! argmax_from x i (Suc i) xs)"
    proof (rule Cons.IH)
      show "Suc i = length (pre @ [x])" using Cons.prems(1) by simp
      show "i < length (pre @ [x])" using Cons.prems(1) by simp
      show "x = (pre @ [x]) ! i" using Cons.prems(1) by simp
      show "\<forall>j<length (pre @ [x]). (pre @ [x]) ! j \<le> x"
        using Cons.prems(4) True by (auto simp: nth_append less_Suc_eq)
      show "\<forall>j<i. (pre @ [x]) ! j < x"
        using Cons.prems(1,4) True by (auto simp: nth_append)
    qed
    with True show ?thesis by simp
  next
    case False
    have "argmax_from best bi (Suc i) xs < length ((pre @ [x]) @ xs)
     \<and> (\<forall>j < length ((pre @ [x]) @ xs). ((pre @ [x]) @ xs) ! j \<le> ((pre @ [x]) @ xs) ! argmax_from best bi (Suc i) xs)
     \<and> (\<forall>j < argmax_from best bi (Suc i) xs. ((pre @ [x]) @ xs) ! j < ((pre @ [x]) @ xs) ! argmax_from best bi (Suc i) xs)"
    proof (rule Cons.IH)
      show "Suc i = length (pre @ [x])" using Cons.prems(1) by simp
      show "bi < length (pre @ [x])" using Cons.prems(2) by simp
      show "best = (pre @ [x]) ! bi" using Cons.prems(2,3) by (simp add: nth_append)
      show "\<forall>j<length (pre @ [x]). (pre @ [x]) ! j \<le> best"
        using Cons.prems(4) False by (auto simp: nth_append less_Suc_eq)
      show "\<forall>j<bi. (pre @ [x]) ! j < best"
        using Cons.prems(2,5) by (auto simp: nth_append)
    qed
    with False show ?thesis by simp
  qed
qed

lemma torch_argmax_spec:
  assumes "mp \<noteq> []"
  shows "\<exists>i. torch_argmax mp = Inr i \<and> i < length mp
           \<and> (\<forall>j < length mp. mp ! j \<le> mp ! i) \<and> (\<forall>j < i. mp ! j < mp ! i)"
proof -
  from assms obtain x ys where mp: "mp = x # ys" by (cases mp) auto
  have "argmax_from x 0 1 ys < length ([x] @ ys)
     \<and> (\<forall>j < length ([x] @ ys). ([x] @ ys) ! j \<le> ([x] @ ys) ! argmax_from x 0 1 ys)
     \<and> (\<forall>j < argmax_from x 0 1 ys. ([x] @ ys) ! j < ([x] @ ys) ! argmax_from x 0 1 ys)"
    by (rule argmax_from_spec) simp_all
  then show ?thesis by (simp add: torch_argmax_def mp)
qed

section \<open>The claims\<close>

text \<open>
  Claim C5. For every dataset, \<^verbatim>\<open>count_events\<close> returns the sum over the records of the
  number of observed points, where a record with a null observation counts 0 and a record
  with an empty, non-null container counts 0.
\<close>

theorem count_events_sum:
  "data s = Some d \<Longrightarrow>
     count_events s = Inr (sum_list (map events_of d))
     \<and> events_of (r, None, x) = 0 \<and> events_of (r, Some [], x) = 0
     \<and> events_of (r, Some pts, x) = length pts"
  by (simp add: count_events_def count_loop_sum events_of_def)

theorem count_events_sum_witness:
  "data (demo_policy\<lparr>data := Some [(1, Some [[0], [1]], 1), (2, Some [[0]], 1), (3, None, 1),
                                   (4, Some [[1], [2], [3]], 1), (5, Some [], 1)]\<rparr>)
     = Some [(1, Some [[0], [1]], 1), (2, Some [[0]], 1), (3, None, 1),
             (4, Some [[1], [2], [3]], 1), (5, Some [], 1)]
   \<and> count_events (demo_policy\<lparr>data := Some [(1, Some [[0], [1]], 1), (2, Some [[0]], 1),
                                   (3, None, 1), (4, Some [[1], [2], [3]], 1), (5, Some [], 1)]\<rparr>)
     = Inr (2 + 1 + 0 + 3 + 0)"
  using count_events_sum [of "demo_policy\<lparr>data := Some [(1, Some [[0], [1]], 1), (2, Some [[0]], 1),
                                   (3, None, 1), (4, Some [[1], [2], [3]], 1), (5, Some [], 1)]\<rparr>"
      "[(1, Some [[0], [1]], 1), (2, Some [[0]], 1), (3, None, 1),
             (4, Some [[1], [2], [3]], 1), (5, Some [], 1)]"]
  by (simp add: events_of_def)

text \<open>
  Claim C3. \<^verbatim>\<open>add_data\<close> hands the record to the estimator first and appends it to the
  dataset of the policy second: the estimator's ingestion runs in every case; when it
  raises, the exception is the one of \<^verbatim>\<open>add_data\<close> and the dataset is unchanged; when it
  returns, the record is the new last element of the dataset.
\<close>

theorem add_data_order:
  "estimator (snd (add_data env dp s)) = snd (add_data_point env dp (estimator s))
   \<and> (\<forall>e. fst (add_data_point env dp (estimator s)) = Inl e \<longrightarrow>
         fst (add_data env dp s) = Inl e \<and> data (snd (add_data env dp s)) = data s)
   \<and> (\<forall>u d. fst (add_data_point env dp (estimator s)) = Inr u \<and> data s = Some d \<longrightarrow>
         fst (add_data env dp s) = Inr () \<and> data (snd (add_data env dp s)) = Some (d @ [dp]))"
  by (auto simp: add_data_def split: prod.splits sum.splits option.splits)

theorem add_data_order_witness:
  "fst (add_data_point env_ingest_fails (5, None, 10) (estimator fitted_policy))
     = Inl (Raised ''InvalidActionError'')
   \<and> fst (add_data env_ingest_fails (5, None, 10) fitted_policy)
     = Inl (Raised ''InvalidActionError'')
   \<and> data (snd (add_data env_ingest_fails (5, None, 10) fitted_policy)) = data fitted_policy
   \<and> fst (add_data_point demo_env (5, None, 10) (estimator fitted_policy)) = Inr ()
   \<and> data fitted_policy = Some [(1, Some [[0]], 10)]
   \<and> fst (add_data demo_env (5, None, 10) fitted_policy) = Inr ()
   \<and> data (snd (add_data demo_env (5, None, 10) fitted_policy))
     = Some ([(1, Some [[0]], 10)] @ [(5, None, 10)])
   \<and> estimator (snd (add_data demo_env (5, None, 10) fitted_policy))
     = ([(1, Some [[0]], 10), (5, None, 10)], True)"
proof -
  have a: "fst (add_data_point env_ingest_fails (5, None, 10) (estimator fitted_policy))
     = Inl (Raised ''InvalidActionError'')"
    by (simp add: env_ingest_fails_def demo_env_def)
  have b: "fst (add_data_point demo_env (5, None, 10) (estimator fitted_policy)) = Inr ()"
    "data fitted_policy = Some [(1, Some [[0]], 10)]"
    "snd (add_data_point demo_env (5, None, 10) (estimator fitted_policy))
       = ([(1, Some [[0]], 10), (5, None, 10)], True)"
    by (simp_all add: demo_env_def fitted_policy_def)
  show ?thesis
    using add_data_order [of env_ingest_fails "(5, None, 10)" fitted_policy]
      add_data_order [of demo_env "(5, None, 10)" fitted_policy] a b
    by simp
qed

text \<open>
  Claim C6. When the estimator has no fitted rate, \<^verbatim>\<open>acquisition_function\<close> returns one
  fresh draw of the normal generator per candidate, whatever the uniform draw and the
  schedule are: the scores are the successive draws taken after the uniform one, so they
  depend on the generator and on the number of candidates only, not on the estimator or
  the cost function.
\<close>

theorem acquisition_random_without_rate:
  "rate env (estimator s) = None \<Longrightarrow>
     fst (acquisition_function env actions s)
       = Inr (draws (randn env) (length actions) (snd (uniform env (rng s))))
     \<and> length (draws (randn env) (length actions) (snd (uniform env (rng s))))
       = length actions"
  using random_scores_length [of env actions "snd (uniform env (rng s))"]
  by (simp add: acquisition_function_def Let_def case_prod_beta random_scores_draws)

theorem acquisition_random_without_rate_witness:
  "rate demo_env (estimator demo_policy) = None
   \<and> epsilon demo_policy 1 = 0
   \<and> fst (uniform demo_env (rng demo_policy)) = 1 / 2
   \<and> fst (acquisition_function demo_env [1, 0, 2] demo_policy) = Inr [1, 2, 3]"
proof -
  have a: "rate demo_env (estimator demo_policy) = None"
    by (simp add: demo_env_def demo_policy_def)
  have b: "draws (randn demo_env) (length [1::nat, 0, 2]) (snd (uniform demo_env (rng demo_policy)))
             = [1, 2, 3]"
    by (simp add: demo_env_def demo_policy_def numeral_3_eq_3)
  show ?thesis
    using acquisition_random_without_rate [OF a, of "[1, 0, 2]"] a b
    by (simp add: demo_env_def demo_policy_def zero_schedule_def)
qed

text \<open>
  Claim C2, as stated, fails at the draw \<open>p = 0\<close>: the test of the source is
  \<^verbatim>\<open>p > epsilon\<close>, so with \<open>epsilon = 0\<close> and a fitted rate the draw \<open>0\<close> selects the
  exploration branch, and the score of region \<open>3\<close> is the random draw \<open>3\<close>, not
  mean over cost, \<open>3 / 4\<close>.
\<close>

theorem acquisition_zero_draw_explores:
  "epsilon fitted_policy = zero_schedule
   \<and> rate env_draw_zero (estimator fitted_policy) \<noteq> None
   \<and> fst (uniform env_draw_zero (rng fitted_policy)) = 0
   \<and> mean_set env_draw_zero (estimator fitted_policy) 3 = Inr 3
   \<and> w fitted_policy 3 = 4
   \<and> fst (acquisition_function env_draw_zero [3] fitted_policy) = Inr [3]
   \<and> fst (acquisition_function env_draw_zero [3] fitted_policy) \<noteq> Inr [3 / 4]"
  by (simp add: acquisition_function_def env_draw_zero_def demo_env_def fitted_policy_def
        zero_schedule_def demo_cost_def Let_def)

text \<open>
  Claim C2, amended. Under a schedule that is \<open>0\<close> at every round, with a fitted rate,
  every uniform draw \<open>p > 0\<close> selects the exploitation branch: the scores are the
  estimator's mean over each region divided by the cost of the region (where the mean is
  defined and the cost is not zero), and no normal draw is taken. A draw \<open>p \<le> 0\<close> selects
  the exploration branch instead.
\<close>

theorem acquisition_exploits_zero_schedule:
  assumes "\<forall>n. epsilon s n = 0"
    and "rate env (estimator s) \<noteq> None"
    and "\<forall>a\<in>set actions. mean_set env (estimator s) a = Inr (m a) \<and> w s a \<noteq> 0"
  shows "(0 < fst (uniform env (rng s)) \<longrightarrow>
           acquisition_function env actions s
             = (Inr (map (\<lambda>a. m a / w s a) actions),
                s\<lparr>t := t s + 1, rng := snd (uniform env (rng s))\<rparr>))
       \<and> (fst (uniform env (rng s)) \<le> 0 \<longrightarrow>
           fst (acquisition_function env actions s)
             = Inr (draws (randn env) (length actions) (snd (uniform env (rng s)))))"
  using assms exploit_scores_ok [of actions env "estimator s" m "w s"]
  by (simp add: acquisition_function_def Let_def case_prod_beta random_scores_draws)

theorem acquisition_exploits_zero_schedule_witness:
  "(\<forall>n. epsilon fitted_policy n = 0)
   \<and> rate demo_env (estimator fitted_policy) \<noteq> None
   \<and> mean_set demo_env (estimator fitted_policy) 1 = Inr 1 \<and> w fitted_policy 1 = 2
   \<and> mean_set demo_env (estimator fitted_policy) 3 = Inr 3 \<and> w fitted_policy 3 = 4
   \<and> 0 < fst (uniform demo_env (rng fitted_policy))
   \<and> fst (acquisition_function demo_env [1, 3] fitted_policy) = Inr [1 / 2, 3 / 4]
   \<and> fst (uniform env_draw_zero (rng fitted_policy)) \<le> 0
   \<and> fst (acquisition_function env_draw_zero [1, 3] fitted_policy) = Inr [3, 4]"
proof -
  have a: "\<forall>n. epsilon fitted_policy n = 0"
    by (simp add: fitted_policy_def zero_schedule_def)
  have b: "rate demo_env (estimator fitted_policy) \<noteq> None"
    "rate env_draw_zero (estimator fitted_policy) \<noteq> None"
    by (simp_all add: demo_env_def env_draw_zero_def fitted_policy_def)
  have c: "\<forall>a\<in>set [1, 3]. mean_set demo_env (estimator fitted_policy) a = Inr (real a)
         \<and> w fitted_policy a \<noteq> 0"
    "\<forall>a\<in>set [1, 3]. mean_set env_draw_zero (estimator fitted_policy) a = Inr (real a)
         \<and> w fitted_policy a \<noteq> 0"
    by (simp_all add: demo_env_def env_draw_zero_def fitted_policy_def demo_cost_def)
  have d: "0 < fst (uniform demo_env (rng fitted_policy))"
    "fst (uniform env_draw_zero (rng fitted_policy)) \<le> 0"
    by (simp_all add: demo_env_def env_draw_zero_def)
  have e: "w fitted_policy 1 = 2" "w fitted_policy 3 = 4"
    "draws (randn env_draw_zero) (length [1::nat, 3]) (snd (uniform env_draw_zero (rng fitted_policy)))
       = [3, 4]"
    by (simp_all add: fitted_policy_def demo_cost_def env_draw_zero_def demo_env_def numeral_2_eq_2)
  show ?thesis
    using acquisition_exploits_zero_schedule [OF a b(1) c(1)]
      acquisition_exploits_zero_schedule [OF a b(2) c(2)] a b d e
    by (simp add: demo_env_def)
qed

text \<open>
  Claim C1. Whenever \<^verbatim>\<open>step\<close> returns, the configured \<open>topk\<close> lies between \<open>0\<close> and the
  number of candidates, the chosen regions and the chosen indices are \<open>topk\<close> many, every
  index is a position of the candidate list, no index occurs twice, the regions are the
  candidates at these positions, and their number is at most the minimum of \<open>topk\<close> and
  the number of candidates. And \<^verbatim>\<open>step\<close> does return for \<open>0 \<le> topk \<le> m\<close> when the
  dataset is not null and no collaborator raises.
\<close>

theorem step_selects_topk:
  "(step env actions verbose index points s = (Inr (cost, out, sensed, idx), s') \<longrightarrow>
      0 \<le> topk s \<and> topk s \<le> int (length actions)
      \<and> length sensed = nat (topk s) \<and> length idx = nat (topk s)
      \<and> (\<forall>i\<in>set idx. i < length actions) \<and> distinct idx
      \<and> sensed = map (\<lambda>i. actions ! i) idx
      \<and> length sensed \<le> min (nat (topk s)) (length actions))
   \<and> (0 \<le> topk s \<and> topk s \<le> int (length actions) \<and> data s = Some d
      \<and> (\<forall>es. fst (fit_gp env es) = Inr ())
      \<and> (\<forall>a x ps. \<exists>obs. fst (sample env a x ps) = Inr obs)
      \<and> (\<forall>dp es. fst (add_data_point env dp es) = Inr ())
      \<and> (\<forall>es. \<forall>a\<in>set actions. (\<exists>m. mean_set env es a = Inr m) \<and> w s a \<noteq> 0)
      \<longrightarrow> (\<exists>r s''. step env actions verbose index points s = (Inr r, s'')))"
proof (rule conjI)
  show "step env actions verbose index points s = (Inr (cost, out, sensed, idx), s') \<longrightarrow>
      0 \<le> topk s \<and> topk s \<le> int (length actions)
      \<and> length sensed = nat (topk s) \<and> length idx = nat (topk s)
      \<and> (\<forall>i\<in>set idx. i < length actions) \<and> distinct idx
      \<and> sensed = map (\<lambda>i. actions ! i) idx
      \<and> length sensed \<le> min (nat (topk s)) (length actions)"
    by (rule impI) (rule step_selection)
  show "0 \<le> topk s \<and> topk s \<le> int (length actions) \<and> data s = Some d
      \<and> (\<forall>es. fst (fit_gp env es) = Inr ())
      \<and> (\<forall>a x ps. \<exists>obs. fst (sample env a x ps) = Inr obs)
      \<and> (\<forall>dp es. fst (add_data_point env dp es) = Inr ())
      \<and> (\<forall>es. \<forall>a\<in>set actions. (\<exists>m. mean_set env es a = Inr m) \<and> w s a \<noteq> 0)
      \<longrightarrow> (\<exists>r s''. step env actions verbose index points s = (Inr r, s''))"
  proof (rule impI, elim conjE)
    assume "0 \<le> topk s" "topk s \<le> int (length actions)" "data s = Some d"
      "\<forall>es. fst (fit_gp env es) = Inr ()"
      "\<forall>a x ps. \<exists>obs. fst (sample env a x ps) = Inr obs"
      "\<forall>dp es. fst (add_data_point env dp es) = Inr ()"
      "\<forall>es. \<forall>a\<in>set actions. (\<exists>m. mean_set env es a = Inr m) \<and> w s a \<noteq> 0"
    then show "\<exists>r s''. step env actions verbose index points s = (Inr r, s'')"
      by (rule step_total)
  qed
qed

theorem step_selects_topk_witness:
  "fst (step demo_env [1, 0, 2] False False True demo_policy)
     = Inr (4, Points (Some [[0], [0]]), [2, 0], [2, 1])
   \<and> topk demo_policy = 2 \<and> length [1::nat, 0, 2] = 3
   \<and> length [2::nat, 0] = nat (topk demo_policy) \<and> distinct [2::nat, 1]
   \<and> [2::nat, 0] = map (\<lambda>i. [1, 0, 2] ! i) [2, 1]
   \<and> data demo_policy = Some []
   \<and> (\<forall>es. fst (fit_gp demo_env es) = Inr ())
   \<and> (\<forall>dp es. fst (add_data_point demo_env dp es) = Inr ())
   \<and> (\<exists>r s''. step demo_env [1, 0, 2] False False True demo_policy = (Inr r, s''))"
proof -
  have e: "fst (step demo_env [1, 0, 2] False False True demo_policy)
     = Inr (4, Points (Some [[0], [0]]), [2, 0], [2, 1])"
    by code_simp
  then have e': "step demo_env [1, 0, 2] False False True demo_policy
     = (Inr (4, Points (Some [[0], [0]]), [2, 0], [2, 1]),
        snd (step demo_env [1, 0, 2] False False True demo_policy))"
    by (cases "step demo_env [1, 0, 2] False False True demo_policy") simp
  have k: "topk demo_policy = 2" "data demo_policy = Some []"
    by (simp_all add: demo_policy_def)
  have c: "\<forall>es. fst (fit_gp demo_env es) = Inr ()"
    "\<forall>a x ps. \<exists>obs. fst (sample demo_env a x ps) = Inr obs"
    "\<forall>dp es. fst (add_data_point demo_env dp es) = Inr ()"
    "\<forall>es. \<forall>a\<in>set [1, 0, 2]. (\<exists>m. mean_set demo_env es a = Inr m) \<and> w demo_policy a \<noteq> 0"
    by (simp_all add: demo_env_def demo_policy_def demo_cost_def)
  have k2: "0 \<le> topk demo_policy \<and> topk demo_policy \<le> int (length [1::nat, 0, 2])"
    by (simp add: k)
  note th = step_selects_topk [of demo_env "[1, 0, 2]" False False True demo_policy
      4 "Points (Some [[0], [0]])" "[2, 0]" "[2, 1]"
      "snd (step demo_env [1, 0, 2] False False True demo_policy)" "[]"]
  have hyp: "0 \<le> topk demo_policy \<and> topk demo_policy \<le> int (length [1::nat, 0, 2])
      \<and> data demo_policy = Some []
      \<and> (\<forall>es. fst (fit_gp demo_env es) = Inr ())
      \<and> (\<forall>a x ps. \<exists>obs. fst (sample demo_env a x ps) = Inr obs)
      \<and> (\<forall>dp es. fst (add_data_point demo_env dp es) = Inr ())
      \<and> (\<forall>es. \<forall>a\<in>set [1, 0, 2]. (\<exists>m. mean_set demo_env es a = Inr m)
            \<and> w demo_policy a \<noteq> 0)"
    using k2 [THEN conjunct1] k2 [THEN conjunct2] k(2) c by (intro conjI) assumption+
  note p1 = th [THEN conjunct1, THEN mp, OF e']
  note p2 = th [THEN conjunct2, THEN mp, OF hyp]
  have q: "length [2::nat, 0] = nat (topk demo_policy)" "distinct [2::nat, 1]"
    "[2::nat, 0] = map (\<lambda>i. [1, 0, 2] ! i) [2, 1]"
    using p1 by simp_all
  have l3: "length [1::nat, 0, 2] = 3" by simp
  show ?thesis
    using e k(1) l3 q k(2) c(1,3) p2 by (intro conjI) assumption+
qed

text \<open>
  Claim C4. When \<^verbatim>\<open>step\<close> returns, its second component is computed from the
  observations of the records appended in the round, one per chosen region and in their
  order: with raw points requested it is their null-safe concatenation, otherwise the
  number of points of that concatenation. In particular, when exactly one observation
  is not null the raw points are that container itself, and when all are null the output
  is null with raw points requested and \<open>0\<close> otherwise.
\<close>

theorem step_points_merge:
  assumes "step env actions verbose index points s = (Inr (cost, out, sensed, idx), s')"
    and "data s = Some d"
  shows "\<exists>recs. data s' = Some (d @ recs) \<and> map fst recs = sensed
     \<and> (points \<longrightarrow> out = Points (null_safe_cat (map (\<lambda>r. fst (snd r)) recs)))
     \<and> (\<not> points \<longrightarrow> out = Count (case null_safe_cat (map (\<lambda>r. fst (snd r)) recs) of
                                         None \<Rightarrow> 0 | Some pl \<Rightarrow> length pl))
     \<and> (\<forall>p. points \<and> non_null (map (\<lambda>r. fst (snd r)) recs) = [p] \<longrightarrow> out = Points (Some p))
     \<and> ((\<forall>ob\<in>set (map (\<lambda>r. fst (snd r)) recs). ob = None) \<longrightarrow>
           out = (if points then Points None else Count 0))"
proof -
  from step_points [OF assms] obtain recs where
    r: "data s' = Some (d @ recs)" "map fst recs = sensed"
       "out = summary points (null_safe_cat (map (\<lambda>r. fst (snd r)) recs))" by blast
  have a: "points \<longrightarrow> out = Points (null_safe_cat (map (\<lambda>r. fst (snd r)) recs))"
    by (simp add: r(3) summary_def split: option.splits)
  have b: "\<not> points \<longrightarrow> out = Count (case null_safe_cat (map (\<lambda>r. fst (snd r)) recs) of
                                         None \<Rightarrow> 0 | Some pl \<Rightarrow> length pl)"
    by (simp add: r(3) summary_def split: option.splits)
  have c: "\<forall>p. points \<and> non_null (map (\<lambda>r. fst (snd r)) recs) = [p] \<longrightarrow> out = Points (Some p)"
    using a by (simp add: null_safe_cat_single)
  have "(\<forall>ob\<in>set (map (\<lambda>r. fst (snd r)) recs). ob = None) \<longrightarrow>
           null_safe_cat (map (\<lambda>r. fst (snd r)) recs) = None"
    using null_safe_cat_all_null [of "map (\<lambda>r. fst (snd r)) recs"] by blast
  then have e: "(\<forall>ob\<in>set (map (\<lambda>r. fst (snd r)) recs). ob = None) \<longrightarrow>
           out = (if points then Points None else Count 0)"
    using a b by simp
  from r(1,2) a b c e show ?thesis by blast
qed

theorem step_points_merge_witness:
  "fst (step demo_env [1, 0, 2] False False True demo_policy)
     = Inr (4, Points (Some [[0], [0]]), [2, 0], [2, 1])
   \<and> data demo_policy = Some []
   \<and> data (snd (step demo_env [1, 0, 2] False False True demo_policy))
       = Some [(2, Some [[0], [0]], 10), (0, None, 10)]
   \<and> non_null [Some [[0], [0]], None] = [[[0], [0]]]
   \<and> (\<exists>recs. data (snd (step demo_env [1, 0, 2] False False True demo_policy)) = Some ([] @ recs)
         \<and> map fst recs = [2, 0]
         \<and> Points (Some [[0], [0]]) = Points (null_safe_cat (map (\<lambda>r. fst (snd r)) recs)))"
proof -
  have e: "fst (step demo_env [1, 0, 2] False False True demo_policy)
     = Inr (4, Points (Some [[0], [0]]), [2, 0], [2, 1])"
    by code_simp
  then have e': "step demo_env [1, 0, 2] False False True demo_policy
     = (Inr (4, Points (Some [[0], [0]]), [2, 0], [2, 1]),
        snd (step demo_env [1, 0, 2] False False True demo_policy))"
    by (cases "step demo_env [1, 0, 2] False False True demo_policy") simp
  have k: "data demo_policy = Some []"
    by (simp add: demo_policy_def)
  have f: "data (snd (step demo_env [1, 0, 2] False False True demo_policy))
       = Some [(2, Some [[0], [0]], 10), (0, None, 10)]"
    by code_simp
  have g: "non_null [Some [[0], [0]], None] = [[[0::real], [0]]]"
    by (simp add: non_null_def)
  from step_points_merge [OF e' k]
  have "\<exists>recs. data (snd (step demo_env [1, 0, 2] False False True demo_policy)) = Some ([] @ recs)
         \<and> map fst recs = [2, 0]
         \<and> Points (Some [[0], [0]]) = Points (null_safe_cat (map (\<lambda>r. fst (snd r)) recs))"
    by auto
  with e k f g show ?thesis by simp
qed

text \<open>
  Claim C7, as stated, fails for a call of \<^verbatim>\<open>step\<close> whose \<^verbatim>\<open>fit_estimator\<close> raises: the
  exception leaves \<^verbatim>\<open>step\<close> before the scoring call, and \<open>t\<close> keeps its value.
\<close>

theorem step_fit_failure_keeps_t:
  "fst (step env_fit_fails [1, 0, 2] False False False demo_policy)
     = Inl (Raised ''EstimationError'')
   \<and> t demo_policy = 0
   \<and> t (snd (step env_fit_fails [1, 0, 2] False False False demo_policy)) = 0"
proof (intro conjI)
  show "fst (step env_fit_fails [1, 0, 2] False False False demo_policy)
     = Inl (Raised ''EstimationError'')"
    by code_simp
  show "t demo_policy = 0" by (simp add: demo_policy_def)
  show "t (snd (step env_fit_fails [1, 0, 2] False False False demo_policy)) = 0"
    by code_simp
qed

text \<open>
  Claim C7, amended. The round counter \<open>t\<close> is \<open>0\<close> after construction; every call of
  \<^verbatim>\<open>acquisition_function\<close> adds exactly \<open>1\<close> to it, whether it returns or raises; the other
  operations leave it unchanged; \<^verbatim>\<open>step\<close> adds exactly \<open>1\<close> when its \<^verbatim>\<open>fit_estimator\<close>
  returns (through its single scoring call), and leaves \<open>t\<close> unchanged when the fit raises.
\<close>

theorem round_counter:
  "(\<forall>s0. init env pr est w0 initial_data eps d k g = Inr s0 \<longrightarrow> t s0 = 0)
   \<and> t (snd (acquisition_function env actions s)) = t s + 1
   \<and> t (snd (fit_estimator env s)) = t s
   \<and> t (snd (add_data env dp s)) = t s
   \<and> t (snd (sense env a s)) = t s
   \<and> ((\<exists>e. fst (fit_estimator env s) = Inl e) \<longrightarrow>
         t (snd (step env actions verbose index points s)) = t s)
   \<and> ((\<exists>u. fst (fit_estimator env s) = Inr u) \<longrightarrow>
         t (snd (step env actions verbose index points s)) = t s + 1)"
proof (intro conjI)
  show "\<forall>s0. init env pr est w0 initial_data eps d k g = Inr s0 \<longrightarrow> t s0 = 0"
    by (auto simp: init_def split: prod.splits sum.splits)
  show "t (snd (acquisition_function env actions s)) = t s + 1"
    using acquisition_function_snd [of env actions s] by auto
  show "t (snd (fit_estimator env s)) = t s"
    by (simp add: fit_estimator_snd)
  show "t (snd (add_data env dp s)) = t s" by (rule add_data_keeps)
  show "t (snd (sense env a s)) = t s" by (rule sense_keeps(1))
  show "(\<exists>e. fst (fit_estimator env s) = Inl e) \<longrightarrow>
         t (snd (step env actions verbose index points s)) = t s"
    by (auto simp: step_t)
  show "(\<exists>u. fst (fit_estimator env s) = Inr u) \<longrightarrow>
         t (snd (step env actions verbose index points s)) = t s + 1"
    by (auto simp: step_t)
qed

theorem round_counter_witness:
  "init demo_env 0 ([], False) demo_cost (Some []) zero_schedule 10 2 0 = Inr demo_policy
   \<and> t demo_policy = 0
   \<and> fst (fit_estimator demo_env demo_policy) = Inr ()
   \<and> t (snd (step demo_env [1, 0, 2] False False True demo_policy)) = t demo_policy + 1
   \<and> fst (fit_estimator env_fit_fails demo_policy) = Inl (Raised ''EstimationError'')
   \<and> t (snd (step env_fit_fails [1, 0, 2] False False True demo_policy)) = t demo_policy"
proof -
  have i: "init demo_env 0 ([], False) demo_cost (Some []) zero_schedule 10 2 0 = Inr demo_policy"
    by (simp add: init_def demo_env_def demo_policy_def)
  have f1: "fst (fit_estimator demo_env demo_policy) = Inr ()"
    by (simp add: fit_estimator_def demo_env_def)
  have f2: "fst (fit_estimator env_fit_fails demo_policy) = Inl (Raised ''EstimationError'')"
    by (simp add: fit_estimator_def env_fit_fails_def demo_env_def)
  note th1 = round_counter [of demo_env 0 "([], False)" demo_cost "Some []" zero_schedule 10 2 0
      "[1, 0, 2]" demo_policy _ _ False False True]
  note th2 = round_counter [of env_fit_fails 0 "([], False)" demo_cost "Some []" zero_schedule 10 2 0
      "[1, 0, 2]" demo_policy _ _ False False True]
  have a: "t demo_policy = 0"
    using th1 [THEN conjunct1, rule_format, OF i] .
  have b: "t (snd (step demo_env [1, 0, 2] False False True demo_policy)) = t demo_policy + 1"
    using th1 f1 by blast
  have c: "t (snd (step env_fit_fails [1, 0, 2] False False True demo_policy)) = t demo_policy"
    using th2 f2 by blast
  show ?thesis using i a f1 b f2 c by (intro conjI) assumption+
qed

text \<open>
  Claim C8, as stated, fails: \<^verbatim>\<open>best_point_so_far\<close> makes no test of the fitted rate. With
  an estimator that has no rate and answers the grid query all the same, it returns a
  coordinate and raises nothing.
\<close>

theorem best_point_without_fit:
  "rate demo_env (estimator demo_policy) = None
   \<and> best_point_so_far demo_env demo_policy 7 3 = Inr [1 / 2]
   \<and> best_point_so_far demo_env demo_policy 7 3 \<noteq> Inl (Raised ''NotFittedError'')"
  by (simp add: best_point_so_far_def demo_env_def demo_policy_def torch_argmax_def
        list_get_def)

text \<open>
  Claim C8, amended. An exception of the discretization or of the estimator's grid query
  \<^verbatim>\<open>mean_rate\<close> is the exception of \<^verbatim>\<open>best_point_so_far\<close>, unchanged, whether a rate
  was fitted or not. When both return and the mean rate has at least one and at most
  as many entries as the grid has rows, it returns the row of the grid at the first
  position where the mean rate is maximal.
\<close>

theorem best_point_so_far_argmax:
  "(\<forall>e. return_discretization env D n = Inl e \<longrightarrow> best_point_so_far env s D n = Inl e)
   \<and> (\<forall>xx e. return_discretization env D n = Inr xx \<and> mean_rate env (estimator s) D n = Inl e
         \<longrightarrow> best_point_so_far env s D n = Inl e)
   \<and> (\<forall>xx mp. return_discretization env D n = Inr xx \<and> mean_rate env (estimator s) D n = Inr mp
         \<and> mp \<noteq> [] \<and> length mp \<le> length xx
         \<longrightarrow> (\<exists>i<length mp. best_point_so_far env s D n = Inr (xx ! i)
               \<and> (\<forall>j<length mp. mp ! j \<le> mp ! i) \<and> (\<forall>j<i. mp ! j < mp ! i)))"
proof (intro conjI allI impI)
  fix e assume "return_discretization env D n = Inl e"
  then show "best_point_so_far env s D n = Inl e" by (simp add: best_point_so_far_def)
next
  fix xx e
  assume "return_discretization env D n = Inr xx \<and> mean_rate env (estimator s) D n = Inl e"
  then show "best_point_so_far env s D n = Inl e" by (simp add: best_point_so_far_def)
next
  fix xx mp
  assume h: "return_discretization env D n = Inr xx \<and> mean_rate env (estimator s) D n = Inr mp
         \<and> mp \<noteq> [] \<and> length mp \<le> length xx"
  then have "mp \<noteq> []" by simp
  from torch_argmax_spec [OF this] obtain i where
    i: "torch_argmax mp = Inr i" "i < length mp"
       "\<forall>j < length mp. mp ! j \<le> mp ! i" "\<forall>j < i. mp ! j < mp ! i" by blast
  have "best_point_so_far env s D n = Inr (xx ! i)"
    using h i(1,2) by (simp add: best_point_so_far_def list_get_def)
  with i show "\<exists>i<length mp. best_point_so_far env s D n = Inr (xx ! i)
               \<and> (\<forall>j<length mp. mp ! j \<le> mp ! i) \<and> (\<forall>j<i. mp ! j < mp ! i)" by blast
qed

theorem best_point_so_far_argmax_witness:
  "return_discretization env_rate_raises 7 3 = Inr [[0], [1 / 2], [1]]
   \<and> mean_rate env_rate_raises (estimator demo_policy) 7 3 = Inl (Raised ''NotFittedError'')
   \<and> best_point_so_far env_rate_raises demo_policy 7 3 = Inl (Raised ''NotFittedError'')
   \<and> return_discretization demo_env 7 3 = Inr [[0], [1 / 2], [1]]
   \<and> mean_rate demo_env (estimator fitted_policy) 7 3 = Inr [1, 3, 2]
   \<and> (\<exists>i<length [1::real, 3, 2]. best_point_so_far demo_env fitted_policy 7 3
          = Inr ([[0], [1 / 2], [1]] ! i) \<and> (\<forall>j<length [1::real, 3, 2]. [1::real, 3, 2] ! j \<le> [1, 3, 2] ! i))
   \<and> best_point_so_far demo_env fitted_policy 7 3 = Inr [1 / 2]"
proof -
  have a: "return_discretization env_rate_raises 7 3 = Inr [[0], [1 / 2], [1]]"
    "mean_rate env_rate_raises (estimator demo_policy) 7 3 = Inl (Raised ''NotFittedError'')"
    by (simp_all add: env_rate_raises_def demo_env_def demo_policy_def)
  have b: "return_discretization demo_env 7 3 = Inr [[0], [1 / 2], [1]]"
    "mean_rate demo_env (estimator fitted_policy) 7 3 = Inr [1, 3, 2]"
    by (simp_all add: demo_env_def)
  have c: "best_point_so_far env_rate_raises demo_policy 7 3 = Inl (Raised ''NotFittedError'')"
    using best_point_so_far_argmax [of env_rate_raises 7 3 demo_policy] a by blast
  have "[1::real, 3, 2] \<noteq> [] \<and> length [1::real, 3, 2] \<le> length [[0::real], [1 / 2], [1]]"
    by simp
  with b best_point_so_far_argmax [of demo_env 7 3 fitted_policy]
  have d: "\<exists>i<length [1::real, 3, 2]. best_point_so_far demo_env fitted_policy 7 3
          = Inr ([[0], [1 / 2], [1]] ! i) \<and> (\<forall>j<length [1::real, 3, 2]. [1::real, 3, 2] ! j \<le> [1, 3, 2] ! i)"
    by blast
  have e: "best_point_so_far demo_env fitted_policy 7 3 = Inr [1 / 2]"
    by (simp add: best_point_so_far_def demo_env_def torch_argmax_def list_get_def)
  show ?thesis using a c b d e by (intro conjI) assumption+
qed

text \<open>
  Claim C9. \<^verbatim>\<open>step\<close> catches nothing: an exception of \<^verbatim>\<open>fit_estimator\<close>, of
  \<^verbatim>\<open>acquisition_function\<close> or of \<^verbatim>\<open>torch.topk\<close> is the exception of \<^verbatim>\<open>step\<close>. And when
  the chosen regions are \<open>pre @ a # post\<close>, the regions \<open>pre\<close> were sensed and appended, and
  sensing or appending for \<open>a\<close> raises \<open>e\<close>, then \<^verbatim>\<open>step\<close> raises \<open>e\<close> in the state the
  failing call left: the dataset holds the old records followed by one record per region
  of \<open>pre\<close>, in order, the estimator was handed exactly these records, and none of this is
  undone.
\<close>

theorem step_keeps_partial_progress:
  "(\<forall>e s1. fit_estimator env s = (Inl e, s1) \<longrightarrow>
       step env actions verbose index points s = (Inl e, s1))
   \<and> (\<forall>u s1 e s2. fit_estimator env s = (Inr u, s1)
         \<and> acquisition_function env actions s1 = (Inl e, s2) \<longrightarrow>
       step env actions verbose index points s = (Inl e, s2))
   \<and> (\<forall>u s1 scores s2 e. fit_estimator env s = (Inr u, s1)
         \<and> acquisition_function env actions s1 = (Inr scores, s2)
         \<and> torch_topk scores (topk s2) = Inl e \<longrightarrow>
       step env actions verbose index points s = (Inl e, s2))
   \<and> (\<forall>u s1 scores s2 vals idx pre a post d c1 p1 s3 e s4.
         fit_estimator env s = (Inr u, s1)
         \<and> acquisition_function env actions s1 = (Inr scores, s2)
         \<and> torch_topk scores (topk s2) = Inr (vals, idx)
         \<and> select_actions actions (topk s2) idx = Inr (pre @ a # post)
         \<and> data s = Some d
         \<and> sense_loop env pre 0 None s2 = (Inr (c1, p1), s3)
         \<and> (sense env a s3 = (Inl e, s4)
            \<or> (\<exists>dp s'. sense env a s3 = (Inr dp, s') \<and> add_data env dp s' = (Inl e, s4)))
         \<longrightarrow>
       step env actions verbose index points s = (Inl e, s4)
       \<and> (\<exists>recs. data s4 = Some (d @ recs) \<and> map fst recs = pre
             \<and> estimator s3 = ingest env (estimator s2) recs)
       \<and> (estimator s4 = estimator s3
            \<or> (\<exists>dp. estimator s4 = snd (add_data_point env dp (estimator s3)))))"
proof (intro conjI)
  show "\<forall>e s1. fit_estimator env s = (Inl e, s1) \<longrightarrow>
       step env actions verbose index points s = (Inl e, s1)"
    by (simp add: step_def)
  show "\<forall>u s1 e s2. fit_estimator env s = (Inr u, s1)
         \<and> acquisition_function env actions s1 = (Inl e, s2) \<longrightarrow>
       step env actions verbose index points s = (Inl e, s2)"
    by (simp add: step_def)
  show "\<forall>u s1 scores s2 e. fit_estimator env s = (Inr u, s1)
         \<and> acquisition_function env actions s1 = (Inr scores, s2)
         \<and> torch_topk scores (topk s2) = Inl e \<longrightarrow>
       step env actions verbose index points s = (Inl e, s2)"
    by (simp add: step_def)
  show "\<forall>u s1 scores s2 vals idx pre a post d c1 p1 s3 e s4.
         fit_estimator env s = (Inr u, s1)
         \<and> acquisition_function env actions s1 = (Inr scores, s2)
         \<and> torch_topk scores (topk s2) = Inr (vals, idx)
         \<and> select_actions actions (topk s2) idx = Inr (pre @ a # post)
         \<and> data s = Some d
         \<and> sense_loop env pre 0 None s2 = (Inr (c1, p1), s3)
         \<and> (sense env a s3 = (Inl e, s4)
            \<or> (\<exists>dp s'. sense env a s3 = (Inr dp, s') \<and> add_data env dp s' = (Inl e, s4)))
         \<longrightarrow>
       step env actions verbose index points s = (Inl e, s4)
       \<and> (\<exists>recs. data s4 = Some (d @ recs) \<and> map fst recs = pre
             \<and> estimator s3 = ingest env (estimator s2) recs)
       \<and> (estimator s4 = estimator s3
            \<or> (\<exists>dp. estimator s4 = snd (add_data_point env dp (estimator s3))))"
  proof (intro allI impI)
    fix u s1 scores s2 vals idx pre a post d c1 p1 s3 e s4
    assume h: "fit_estimator env s = (Inr u, s1)
           \<and> acquisition_function env actions s1 = (Inr scores, s2)
           \<and> torch_topk scores (topk s2) = Inr (vals, idx)
           \<and> select_actions actions (topk s2) idx = Inr (pre @ a # post)
           \<and> data s = Some d
           \<and> sense_loop env pre 0 None s2 = (Inr (c1, p1), s3)
           \<and> (sense env a s3 = (Inl e, s4)
              \<or> (\<exists>dp s'. sense env a s3 = (Inr dp, s') \<and> add_data env dp s' = (Inl e, s4)))"
    then have fit: "fit_estimator env s = (Inr u, s1)"
      and acq: "acquisition_function env actions s1 = (Inr scores, s2)"
      and tk: "torch_topk scores (topk s2) = Inr (vals, idx)"
      and sel: "select_actions actions (topk s2) idx = Inr (pre @ a # post)"
      and d: "data s = Some d"
      and lp: "sense_loop env pre 0 None s2 = (Inr (c1, p1), s3)"
      and fl: "sense env a s3 = (Inl e, s4)
              \<or> (\<exists>dp s'. sense env a s3 = (Inr dp, s') \<and> add_data env dp s' = (Inl e, s4))"
      by simp_all
    have d2: "data s2 = Some d" using before_loop_keeps(2) [OF fit acq] d by simp
    have ce: "(if verbose then count_events s2 else Inr 0)
                = Inr (if verbose then count_loop 0 d else 0)"
      using d2 by (simp add: count_events_def)
    note fails = sense_loop_fails_at(1) [OF lp fl, of post] sense_loop_fails_at(2) [OF lp fl]
      sense_loop_fails_at(3) [OF lp fl]
    have st: "step env actions verbose index points s = (Inl e, s4)"
      unfolding step_after_selection [OF fit acq tk sel ce] using fails(1) by simp
    from sense_loop_Inr [OF lp d2] obtain recs where
      r: "data s3 = Some (d @ recs)" "map fst recs = pre"
         "estimator s3 = ingest env (estimator s2) recs" by blast
    have "data s4 = Some (d @ recs)" using fails(2) r(1) by simp
    with r have ex: "\<exists>recs. data s4 = Some (d @ recs) \<and> map fst recs = pre
               \<and> estimator s3 = ingest env (estimator s2) recs" by blast
    from st ex fails(3)
    show "step env actions verbose index points s = (Inl e, s4)
         \<and> (\<exists>recs. data s4 = Some (d @ recs) \<and> map fst recs = pre
               \<and> estimator s3 = ingest env (estimator s2) recs)
         \<and> (estimator s4 = estimator s3
              \<or> (\<exists>dp. estimator s4 = snd (add_data_point env dp (estimator s3))))"
      by (intro conjI)
  qed
qed

theorem step_keeps_partial_progress_witness:
  "fst (fit_estimator env_sample_fails demo_policy) = Inr ()
   \<and> fst (step env_sample_fails [1, 9, 2] False False False demo_policy)
       = Inl (Raised ''InvalidActionError'')
   \<and> data demo_policy = Some []
   \<and> data (snd (step env_sample_fails [1, 9, 2] False False False demo_policy))
       = Some [(2, Some [[0], [0]], 10)]
   \<and> estimator (snd (step env_sample_fails [1, 9, 2] False False False demo_policy))
       = ([(2, Some [[0], [0]], 10)], False)
   \<and> fst (fit_estimator env_fit_fails demo_policy) = Inl (Raised ''EstimationError'')
   \<and> fst (step env_fit_fails [1, 9, 2] False False False demo_policy)
       = Inl (Raised ''EstimationError'')"
proof -
  let ?E = "env_sample_fails"
  let ?s1 = "snd (fit_estimator ?E demo_policy)"
  let ?s2 = "snd (acquisition_function ?E [1, 9, 2] ?s1)"
  let ?s3 = "snd (sense_loop ?E [2] 0 None ?s2)"
  let ?s4 = "snd (sense ?E 9 ?s3)"
  have f0: "fst (fit_estimator ?E demo_policy) = Inr ()" by code_simp
  then have fit: "fit_estimator ?E demo_policy = (Inr (), ?s1)"
    by (cases "fit_estimator ?E demo_policy") simp
  have "fst (acquisition_function ?E [1, 9, 2] ?s1) = Inr [1, 2, 3]" by code_simp
  then have acq: "acquisition_function ?E [1, 9, 2] ?s1 = (Inr [1, 2, 3], ?s2)"
    by (cases "acquisition_function ?E [1, 9, 2] ?s1") simp
  have tk: "torch_topk [1, 2, 3] (topk ?s2) = Inr ([3, 2], [2, 1])" by code_simp
  have sel: "select_actions [1::nat, 9, 2] (topk ?s2) [2, 1] = Inr ([2] @ 9 # [])" by code_simp
  have d: "data demo_policy = Some []" by (simp add: demo_policy_def)
  have "fst (sense_loop ?E [2] 0 None ?s2) = Inr (3, Some [[0], [0]])" by code_simp
  then have lp: "sense_loop ?E [2] 0 None ?s2 = (Inr (3, Some [[0], [0]]), ?s3)"
    by (cases "sense_loop ?E [2] 0 None ?s2") simp
  have "fst (sense ?E 9 ?s3) = Inl (Raised ''InvalidActionError'')" by code_simp
  then have "sense ?E 9 ?s3 = (Inl (Raised ''InvalidActionError''), ?s4)"
    by (cases "sense ?E 9 ?s3") simp
  then have fl: "sense ?E 9 ?s3 = (Inl (Raised ''InvalidActionError''), ?s4)
      \<or> (\<exists>dp s'. sense ?E 9 ?s3 = (Inr dp, s')
            \<and> add_data ?E dp s' = (Inl (Raised ''InvalidActionError''), ?s4))"
    by (rule disjI1)
  have hyp: "fit_estimator ?E demo_policy = (Inr (), ?s1)
         \<and> acquisition_function ?E [1, 9, 2] ?s1 = (Inr [1, 2, 3], ?s2)
         \<and> torch_topk [1, 2, 3] (topk ?s2) = Inr ([3, 2], [2, 1])
         \<and> select_actions [1::nat, 9, 2] (topk ?s2) [2, 1] = Inr ([2] @ 9 # [])
         \<and> data demo_policy = Some []
         \<and> sense_loop ?E [2] 0 None ?s2 = (Inr (3, Some [[0], [0]]), ?s3)
         \<and> (sense ?E 9 ?s3 = (Inl (Raised ''InvalidActionError''), ?s4)
            \<or> (\<exists>dp s'. sense ?E 9 ?s3 = (Inr dp, s')
                  \<and> add_data ?E dp s' = (Inl (Raised ''InvalidActionError''), ?s4)))"
    using fit acq tk sel d lp fl by (intro conjI) assumption+
  note th = step_keeps_partial_progress [of ?E demo_policy "[1, 9, 2]" False False False]
  note main = th [THEN conjunct2, THEN conjunct2, THEN conjunct2, rule_format, OF hyp]
  have a: "fst (step ?E [1, 9, 2] False False False demo_policy)
       = Inl (Raised ''InvalidActionError'')"
    using main by simp
  have b: "data (snd (step ?E [1, 9, 2] False False False demo_policy))
       = Some [(2, Some [[0], [0]], 10)]" by code_simp
  have c: "estimator (snd (step ?E [1, 9, 2] False False False demo_policy))
       = ([(2, Some [[0], [0]], 10)], False)" by code_simp
  have g0: "fst (fit_estimator env_fit_fails demo_policy) = Inl (Raised ''EstimationError'')"
    by code_simp
  then have g: "fit_estimator env_fit_fails demo_policy
      = (Inl (Raised ''EstimationError''), snd (fit_estimator env_fit_fails demo_policy))"
    by (cases "fit_estimator env_fit_fails demo_policy") simp
  note th2 = step_keeps_partial_progress [of env_fit_fails demo_policy "[1, 9, 2]" False False False]
  have h: "fst (step env_fit_fails [1, 9, 2] False False False demo_policy)
       = Inl (Raised ''EstimationError'')"
    using th2 [THEN conjunct1, rule_format, OF g] by simp
  show ?thesis using f0 a d b c g0 h by (intro conjI) assumption+
qed

text \<open>
  Claim C10, as stated, fails for \<^verbatim>\<open>step\<close> when \<open>topk = 0\<close>: \<^verbatim>\<open>torch.topk\<close> accepts
  \<open>k = 0\<close> and selects nothing, the sensing loop has no iteration, \<^verbatim>\<open>add_data\<close> is not
  called, and \<^verbatim>\<open>step\<close> returns although the dataset is null.
\<close>

theorem step_null_data_topk_zero:
  "init demo_env 0 ([], False) demo_cost None zero_schedule 10 0 0 = Inr null_policy
   \<and> data null_policy = None
   \<and> topk null_policy = 0
   \<and> fst (step demo_env [1, 0, 2] False False False null_policy) = Inr (0, Count 0, [], [])"
proof (intro conjI)
  show "init demo_env 0 ([], False) demo_cost None zero_schedule 10 0 0 = Inr null_policy"
    by (simp add: init_def demo_env_def null_policy_def)
  show "data null_policy = None" by (simp add: null_policy_def)
  show "topk null_policy = 0" by (simp add: null_policy_def)
  show "fst (step demo_env [1, 0, 2] False False False null_policy) = Inr (0, Count 0, [], [])"
    by code_simp
qed

text \<open>
  Claim C10, amended. Constructed with the default \<^verbatim>\<open>initial_data\<close> (null), the policy
  passes null to the estimator's \<^verbatim>\<open>load_data\<close> and keeps null as its dataset. While the
  dataset is null, every call of \<^verbatim>\<open>add_data\<close> and of \<^verbatim>\<open>count_events\<close> fails, every call
  of \<^verbatim>\<open>step\<close> with \<open>topk \<noteq> 0\<close> or with \<^verbatim>\<open>verbose\<close> fails, and the dataset stays null after
  each of them.
\<close>

theorem null_initial_data:
  "(\<forall>s0. init env pr est w0 None eps d k g = Inr s0 \<longrightarrow>
       data s0 = None \<and> load_data env None est = (Inr (), estimator s0))
   \<and> (data s = None \<longrightarrow>
         (\<exists>e. fst (add_data env dp s) = Inl e)
         \<and> data (snd (add_data env dp s)) = None
         \<and> count_events s = Inl TypeError
         \<and> data (snd (step env actions verbose index points s)) = None
         \<and> (topk s \<noteq> 0 \<or> verbose \<longrightarrow>
              (\<exists>e. fst (step env actions verbose index points s) = Inl e)))"
proof (intro conjI)
  show "\<forall>s0. init env pr est w0 None eps d k g = Inr s0 \<longrightarrow>
       data s0 = None \<and> load_data env None est = (Inr (), estimator s0)"
    by (auto simp: init_def split: prod.splits sum.splits)
  show "data s = None \<longrightarrow>
         (\<exists>e. fst (add_data env dp s) = Inl e)
         \<and> data (snd (add_data env dp s)) = None
         \<and> count_events s = Inl TypeError
         \<and> data (snd (step env actions verbose index points s)) = None
         \<and> (topk s \<noteq> 0 \<or> verbose \<longrightarrow>
              (\<exists>e. fst (step env actions verbose index points s) = Inl e))"
  proof (rule impI)
    assume n: "data s = None"
    have a: "(\<exists>e. fst (add_data env dp s) = Inl e)" "data (snd (add_data env dp s)) = None"
      using add_data_null [OF n, of env dp] by simp_all
    have b: "count_events s = Inl TypeError" using n by (simp add: count_events_def)
    have c: "data (snd (step env actions verbose index points s)) = None"
      using n by (rule step_null_data)
    have e: "topk s \<noteq> 0 \<or> verbose \<longrightarrow>
              (\<exists>e. fst (step env actions verbose index points s) = Inl e)"
      using step_null_fails [OF n] by blast
    from a b c e show "(\<exists>e. fst (add_data env dp s) = Inl e)
         \<and> data (snd (add_data env dp s)) = None
         \<and> count_events s = Inl TypeError
         \<and> data (snd (step env actions verbose index points s)) = None
         \<and> (topk s \<noteq> 0 \<or> verbose \<longrightarrow>
              (\<exists>e. fst (step env actions verbose index points s) = Inl e))"
      by (intro conjI)
  qed
qed

theorem null_initial_data_witness:
  "init demo_env 0 ([], False) demo_cost None zero_schedule 10 2 0
     = Inr (null_policy\<lparr>topk := 2\<rparr>)
   \<and> data (null_policy\<lparr>topk := 2\<rparr>) = None
   \<and> load_data demo_env None ([], False) = (Inr (), estimator (null_policy\<lparr>topk := 2\<rparr>))
   \<and> fst (add_data demo_env (1, Some [[0]], 10) (null_policy\<lparr>topk := 2\<rparr>)) = Inl AttributeError
   \<and> count_events (null_policy\<lparr>topk := 2\<rparr>) = Inl TypeError
   \<and> topk (null_policy\<lparr>topk := 2\<rparr>) = 2
   \<and> fst (step demo_env [1, 0, 2] False False False (null_policy\<lparr>topk := 2\<rparr>))
       = Inl AttributeError
   \<and> (\<exists>e. fst (step demo_env [1, 0, 2] False False False (null_policy\<lparr>topk := 2\<rparr>)) = Inl e)
   \<and> data (snd (step demo_env [1, 0, 2] False False False (null_policy\<lparr>topk := 2\<rparr>))) = None"
proof -
  let ?P = "null_policy\<lparr>topk := 2\<rparr>"
  note th = null_initial_data [of demo_env 0 "([], False)" demo_cost zero_schedule 10 2 0 ?P
      "(1, Some [[0]], 10)" "[1, 0, 2]" False False False]
  have i: "init demo_env 0 ([], False) demo_cost None zero_schedule 10 2 0 = Inr ?P"
    by (simp add: init_def demo_env_def null_policy_def)
  note p1 = th [THEN conjunct1, rule_format, OF i]
  have n: "data ?P = None" using p1 by simp
  have l: "load_data demo_env None ([], False) = (Inr (), estimator ?P)" using p1 by simp
  note p2 = th [THEN conjunct2, THEN mp, OF n]
  have k: "topk ?P = 2" by (simp add: null_policy_def)
  have a: "fst (add_data demo_env (1, Some [[0]], 10) ?P) = Inl AttributeError" by code_simp
  have b: "count_events ?P = Inl TypeError" using p2 by simp
  have c: "fst (step demo_env [1, 0, 2] False False False ?P) = Inl AttributeError"
    by code_simp
  have e: "\<exists>e. fst (step demo_env [1, 0, 2] False False False ?P) = Inl e"
    using p2 k by simp
  have f: "data (snd (step demo_env [1, 0, 2] False False False ?P)) = None"
    using p2 by simp
  show ?thesis using i n l a b k c e f by (intro conjI) assumption+
qed

end
